theory Spec2Isabelle
  imports Complex_Main "HOL-Library.AList" "HOL-Library.Product_Lexorder"
begin

section \<open>Data model\<close>

text \<open>
  The payoff simulator of \<^verbatim>\<open>debt_calculator.py\<close> and \<^verbatim>\<open>debt_app_streamlit.py\<close>.

  A value of Python's \<^verbatim>\<open>float\<close> is a rational number. In the engine of the first
  sections every arithmetic operation and comparison of the source is the exact one; the
  section on double precision gives the budget-based simulations again with the result of
  every operation rounded to the nearest double. Infinities and NaN are not modelled.

  A \<^verbatim>\<open>Card\<close> is a mutable object, and the functions of the source differ in whether they
  mutate the caller's objects or a \<^verbatim>\<open>copy.deepcopy\<close> of them. Objects therefore live in an
  explicit store: a heap is the list of all allocated cards, an address is an index into it,
  allocation appends, and a Python \<^verbatim>\<open>List[Card]\<close> is a list of addresses (the same address
  may occur twice, as the same object may in a Python list).
\<close>

record Card =
  name :: string
  balance :: rat
  apr :: rat

type_synonym addr = nat
type_synonym heap = "Card list"

text \<open>The exceptions the engine raises; the message texts are not modelled.\<close>

datatype error = ValueError | KeyError | ZeroDivisionError

text \<open>One entry of \<^verbatim>\<open>history\<close>; \<^verbatim>\<open>balances\<close> is a dict in insertion order.\<close>

record snapshot =
  month :: int
  interest :: rat
  total_interest_to_date :: rat
  balances :: "(string \<times> rat) list"
  snapshot_total_balance :: rat

text \<open>
  The dict a simulation returns. A key that the returned dict does not have is \<open>None\<close>:
  \<^verbatim>\<open>reason\<close> exists only when the cap was hit, \<^verbatim>\<open>monthly_budget\<close>, \<^verbatim>\<open>strategy\<close> and
  \<^verbatim>\<open>monthly_payments\<close> only on success, \<^verbatim>\<open>history\<close> only in \<^verbatim>\<open>debt_calculator.py\<close>.
\<close>

record sim_result =
  paid_off :: bool
  months :: int
  total_interest :: rat
  reason :: "string option"
  monthly_budget :: "rat option"
  strategy :: "string option"
  monthly_payments :: "(string \<times> rat) list option"
  history :: "snapshot list option"

section \<open>Helpers of the engine\<close>

definition monthly_rate :: "rat \<Rightarrow> rat" where
  "monthly_rate apr_percent = (apr_percent / 100) / 12"

definition total_balance :: "heap \<Rightarrow> addr list \<Rightarrow> rat" where
  "total_balance h cards = sum_list (map (\<lambda>c. balance (h ! c)) cards)"

text \<open>Writing \<^verbatim>\<open>c.balance = v\<close> for the object at address \<open>c\<close>.\<close>

definition set_balance :: "heap \<Rightarrow> addr \<Rightarrow> rat \<Rightarrow> heap" where
  "set_balance h c v = h[c := (h ! c)\<lparr>balance := v\<rparr>]"

subsection \<open>One-time payment\<close>

text \<open>
  The \<^verbatim>\<open>for\<close> loop of \<^verbatim>\<open>apply_one_time_payment\<close>: the first card whose name matches is
  paid and the loop breaks; the result is the flag \<^verbatim>\<open>found\<close> and the heap.
\<close>

fun pay_first_match :: "heap \<Rightarrow> addr list \<Rightarrow> string \<Rightarrow> rat \<Rightarrow> bool \<times> heap" where
  "pay_first_match h [] card_name amount = (False, h)"
| "pay_first_match h (c # cs) card_name amount =
     (if name (h ! c) = card_name
      then (True, set_balance h c (max 0 (balance (h ! c) - amount)))
      else pay_first_match h cs card_name amount)"

definition apply_one_time_payment ::
  "heap \<Rightarrow> addr list \<Rightarrow> string \<Rightarrow> rat \<Rightarrow> heap \<times> (error + unit)" where
  "apply_one_time_payment h cards card_name amount =
     (if amount < 0 then (h, Inl ValueError)
      else (case pay_first_match h cards card_name amount of
              (found, h') \<Rightarrow> if \<not> found then (h', Inl KeyError) else (h', Inr ())))"

subsection \<open>Deep copy\<close>

text \<open>
  \<^verbatim>\<open>copy.deepcopy(cards)\<close>: a new list whose elements are new \<^verbatim>\<open>Card\<close> objects. The memo
  of \<^verbatim>\<open>deepcopy\<close> maps each object already copied to its copy, so an object that occurs
  twice in the list is copied once and its copy occurs twice. The fields of a card are
  immutable values and are shared as they are.
\<close>

fun deepcopy_cards :: "(addr \<times> addr) list \<Rightarrow> addr list \<Rightarrow> heap \<Rightarrow> heap \<times> addr list" where
  "deepcopy_cards memo [] h = (h, [])"
| "deepcopy_cards memo (c # cs) h =
     (case map_of memo c of
        Some c' \<Rightarrow>
          (case deepcopy_cards memo cs h of (h', cs') \<Rightarrow> (h', c' # cs'))
      | None \<Rightarrow>
          (case deepcopy_cards ((c, length h) # memo) cs (h @ [h ! c]) of
             (h', cs') \<Rightarrow> (h', length h # cs')))"

definition deepcopy :: "heap \<Rightarrow> addr list \<Rightarrow> heap \<times> addr list" where
  "deepcopy h cards = deepcopy_cards [] cards h"

subsection \<open>The steps of one month\<close>

text \<open>
  Accrual: the loop over \<^verbatim>\<open>cards\<close> that adds \<^verbatim>\<open>intr\<close> to each balance above \<^verbatim>\<open>epsilon\<close>
  and to an accumulator. In \<^verbatim>\<open>debt_calculator.py\<close> the accumulator is \<^verbatim>\<open>month_interest\<close>,
  starting at 0 each month; in \<^verbatim>\<open>debt_app_streamlit.py\<close> it is \<^verbatim>\<open>total_interest_paid\<close>.
\<close>

fun accrue :: "rat \<Rightarrow> addr list \<Rightarrow> heap \<times> rat \<Rightarrow> heap \<times> rat" where
  "accrue epsilon [] (h, acc) = (h, acc)"
| "accrue epsilon (c # cs) (h, acc) =
     (if balance (h ! c) > epsilon
      then (let intr = balance (h ! c) * monthly_rate (apr (h ! c))
            in accrue epsilon cs (set_balance h c (balance (h ! c) + intr), acc + intr))
      else accrue epsilon cs (h, acc))"

definition active_cards :: "rat \<Rightarrow> heap \<Rightarrow> addr list \<Rightarrow> addr list" where
  "active_cards epsilon h cards = filter (\<lambda>c. balance (h ! c) > epsilon) cards"

text \<open>
  The sort keys \<^verbatim>\<open>(-x.apr, x.balance)\<close> and \<^verbatim>\<open>(x.balance, -x.apr)\<close>; tuples are compared
  lexicographically. \<^verbatim>\<open>list.sort\<close> is stable, as \<^const>\<open>sort_key\<close> is.
\<close>

definition avalanche_key :: "heap \<Rightarrow> addr \<Rightarrow> rat \<times> rat" where
  "avalanche_key h c = (- apr (h ! c), balance (h ! c))"

definition snowball_key :: "heap \<Rightarrow> addr \<Rightarrow> rat \<times> rat" where
  "snowball_key h c = (balance (h ! c), - apr (h ! c))"

text \<open>
  The walk of the avalanche and snowball branches over the ordered cards, with the heap
  and \<^verbatim>\<open>remaining_budget\<close> as state; it breaks once the budget is at most \<^verbatim>\<open>epsilon\<close>.
\<close>

fun pay_in_order :: "rat \<Rightarrow> addr list \<Rightarrow> heap \<times> rat \<Rightarrow> heap \<times> rat" where
  "pay_in_order epsilon [] (h, remaining) = (h, remaining)"
| "pay_in_order epsilon (c # cs) (h, remaining) =
     (if remaining \<le> epsilon then (h, remaining)
      else (let pay = min (balance (h ! c)) remaining
            in pay_in_order epsilon cs (set_balance h c (balance (h ! c) - pay), remaining - pay)))"

text \<open>
  The loop of the proportional branch. \<^verbatim>\<open>c.balance / total_bal\<close> raises
  \<^verbatim>\<open>ZeroDivisionError\<close> when \<^verbatim>\<open>total_bal\<close> is zero.
\<close>

fun pay_shares :: "rat \<Rightarrow> rat \<Rightarrow> addr list \<Rightarrow> heap \<Rightarrow> heap \<times> error option" where
  "pay_shares remaining total_bal [] h = (h, None)"
| "pay_shares remaining total_bal (c # cs) h =
     (if total_bal = 0 then (h, Some ZeroDivisionError)
      else (let share = remaining * (balance (h ! c) / total_bal);
                pay = min (balance (h ! c)) share
            in pay_shares remaining total_bal cs (set_balance h c (balance (h ! c) - pay))))"

text \<open>How the allocation step of a month ends: it raises, breaks out of the loop, or is done.\<close>

datatype flow = Raised error | Broke | Done

text \<open>Step 2 of the month in \<^verbatim>\<open>debt_calculator.py\<close> (lines 97 to 139).\<close>

definition allocate :: "rat \<Rightarrow> string \<Rightarrow> rat \<Rightarrow> addr list \<Rightarrow> heap \<Rightarrow> heap \<times> flow" where
  "allocate budget strat epsilon cards h =
     (let active = active_cards epsilon h cards
      in if strat \<noteq> ''avalanche'' \<and> strat \<noteq> ''snowball'' \<and> strat \<noteq> ''proportional''
         then (h, Raised ValueError)
         else if strat = ''proportional''
         then (let total_bal = sum_list (map (\<lambda>c. balance (h ! c)) active)
               in if total_bal \<le> epsilon then (h, Broke)
                  else (case pay_shares budget total_bal active h of
                          (h', Some e) \<Rightarrow> (h', Raised e)
                        | (h', None) \<Rightarrow> (h', Done)))
         else (let ordered = (if strat = ''avalanche''
                              then sort_key (avalanche_key h) active
                              else sort_key (snowball_key h) active)
               in case pay_in_order epsilon ordered (h, budget) of
                    (h', remaining) \<Rightarrow>
                      if remaining > epsilon
                      then (let active2 = active_cards epsilon h' cards;
                                ordered2 = (if strat = ''avalanche''
                                            then sort_key (avalanche_key h') active2
                                            else sort_key (snowball_key h') active2)
                            in (fst (pay_in_order epsilon ordered2 (h', remaining)), Done))
                      else (h', Done)))"

text \<open>The dict comprehension \<^verbatim>\<open>{c.name: max(0.0, c.balance) for c in cards}\<close>.\<close>

definition balances_dict :: "heap \<Rightarrow> addr list \<Rightarrow> (string \<times> rat) list" where
  "balances_dict h cards =
     foldl (\<lambda>d c. AList.update (name (h ! c)) (max 0 (balance (h ! c))) d) [] cards"

definition take_snapshot :: "heap \<Rightarrow> addr list \<Rightarrow> int \<Rightarrow> rat \<Rightarrow> rat \<Rightarrow> snapshot" where
  "take_snapshot h cards n month_interest total_interest_paid =
     \<lparr>month = n, interest = month_interest, total_interest_to_date = total_interest_paid,
      balances = balances_dict h cards, snapshot_total_balance = total_balance h cards\<rparr>"

subsection \<open>Budget-based simulation (\<^verbatim>\<open>debt_calculator.py\<close>)\<close>

definition cap_result :: "int \<Rightarrow> rat \<Rightarrow> string \<Rightarrow> snapshot list option \<Rightarrow> sim_result" where
  "cap_result n total_interest_paid why hist =
     \<lparr>paid_off = False, months = n, total_interest = total_interest_paid,
      reason = Some why, monthly_budget = None, strategy = None,
      monthly_payments = None, history = hist\<rparr>"

definition budget_result :: "int \<Rightarrow> rat \<Rightarrow> rat \<Rightarrow> string \<Rightarrow> snapshot list \<Rightarrow> sim_result" where
  "budget_result n total_interest_paid budget strat hist =
     \<lparr>paid_off = True, months = n, total_interest = total_interest_paid,
      reason = None, monthly_budget = Some budget, strategy = Some strat,
      monthly_payments = None, history = Some hist\<rparr>"

text \<open>
  The \<^verbatim>\<open>while\<close> loop, with the heap and the locals \<^verbatim>\<open>months\<close>, \<^verbatim>\<open>total_interest_paid\<close>
  and \<^verbatim>\<open>history\<close> as state. It gives the heap and the value of \<^verbatim>\<open>months\<close> when the
  function is left, and what the function returns or raises. \<^verbatim>\<open>months\<close> is incremented
  once at the start of every iteration, so it counts the iterations entered.
\<close>

function budget_loop ::
  "addr list \<Rightarrow> rat \<Rightarrow> string \<Rightarrow> int \<Rightarrow> rat \<Rightarrow> heap \<Rightarrow> int \<Rightarrow> rat \<Rightarrow> snapshot list
     \<Rightarrow> heap \<times> int \<times> (error + sim_result)" where
  "budget_loop cards budget strat max_months epsilon h n total_interest_paid hist =
     (if total_balance h cards > epsilon
      then (if n + 1 > max_months
            then (h, n + 1,
                  Inr (cap_result (n + 1) total_interest_paid
                         ''Hit max_months (budget may be too low).'' (Some hist)))
            else (case accrue epsilon cards (h, 0) of
                    (h1, month_interest) \<Rightarrow>
                      (case allocate budget strat epsilon cards h1 of
                         (h2, Raised e) \<Rightarrow> (h2, n + 1, Inl e)
                       | (h2, Broke) \<Rightarrow>
                           (h2, n + 1,
                            Inr (budget_result (n + 1) (total_interest_paid + month_interest)
                                   budget strat hist))
                       | (h2, Done) \<Rightarrow>
                           budget_loop cards budget strat max_months epsilon h2 (n + 1)
                             (total_interest_paid + month_interest)
                             (hist @ [take_snapshot h2 cards (n + 1) month_interest
                                        (total_interest_paid + month_interest)]))))
      else (h, n, Inr (budget_result n total_interest_paid budget strat hist)))"
  by pat_completeness auto
termination
  by (relation "measure (\<lambda>(cards, budget, strat, max_months, epsilon, h, n, t, hist).
                  nat (max_months - n))") auto

definition simulate_payoff_total_budget ::
  "heap \<Rightarrow> addr list \<Rightarrow> rat \<Rightarrow> string \<Rightarrow> int \<Rightarrow> rat \<Rightarrow> heap \<times> (error + sim_result)" where
  "simulate_payoff_total_budget h cards budget strat max_months epsilon =
     (if budget \<le> 0 then (h, Inl ValueError)
      else (case deepcopy h cards of
              (h0, cards') \<Rightarrow>
                (case budget_loop cards' budget strat max_months epsilon h0 0 0 [] of
                   (h', n, out) \<Rightarrow> (h', out))))"

subsection \<open>Budget-based simulation (\<^verbatim>\<open>debt_app_streamlit.py\<close>)\<close>

text \<open>
  The second implementation of \<^verbatim>\<open>simulate_payoff_total_budget\<close>: no second pass over the
  cards, no history, interest added to \<^verbatim>\<open>total_interest_paid\<close> card by card.
\<close>

definition allocate_app :: "rat \<Rightarrow> string \<Rightarrow> rat \<Rightarrow> addr list \<Rightarrow> heap \<Rightarrow> heap \<times> flow" where
  "allocate_app budget strat epsilon cards h =
     (let active = active_cards epsilon h cards
      in if strat = ''avalanche''
         then (fst (pay_in_order epsilon (sort_key (avalanche_key h) active) (h, budget)), Done)
         else if strat = ''snowball''
         then (fst (pay_in_order epsilon (sort_key (snowball_key h) active) (h, budget)), Done)
         else if strat = ''proportional''
         then (let total_bal = sum_list (map (\<lambda>c. balance (h ! c)) active)
               in if total_bal \<le> epsilon then (h, Broke)
                  else (case pay_shares budget total_bal active h of
                          (h', Some e) \<Rightarrow> (h', Raised e)
                        | (h', None) \<Rightarrow> (h', Done)))
         else (h, Raised ValueError))"

definition app_result :: "int \<Rightarrow> rat \<Rightarrow> sim_result" where
  "app_result n total_interest_paid =
     \<lparr>paid_off = True, months = n, total_interest = total_interest_paid,
      reason = None, monthly_budget = None, strategy = None,
      monthly_payments = None, history = None\<rparr>"

function budget_loop_app ::
  "addr list \<Rightarrow> rat \<Rightarrow> string \<Rightarrow> int \<Rightarrow> rat \<Rightarrow> heap \<Rightarrow> int \<Rightarrow> rat
     \<Rightarrow> heap \<times> int \<times> (error + sim_result)" where
  "budget_loop_app cards budget strat max_months epsilon h n total_interest_paid =
     (if total_balance h cards > epsilon
      then (if n + 1 > max_months
            then (h, n + 1,
                  Inr (cap_result (n + 1) total_interest_paid
                         ''Hit max_months (budget may be too low).'' None))
            else (case accrue epsilon cards (h, total_interest_paid) of
                    (h1, total_interest_paid1) \<Rightarrow>
                      (case allocate_app budget strat epsilon cards h1 of
                         (h2, Raised e) \<Rightarrow> (h2, n + 1, Inl e)
                       | (h2, Broke) \<Rightarrow> (h2, n + 1, Inr (app_result (n + 1) total_interest_paid1))
                       | (h2, Done) \<Rightarrow>
                           budget_loop_app cards budget strat max_months epsilon h2 (n + 1)
                             total_interest_paid1)))
      else (h, n, Inr (app_result n total_interest_paid)))"
  by pat_completeness auto
termination
  by (relation "measure (\<lambda>(cards, budget, strat, max_months, epsilon, h, n, t).
                  nat (max_months - n))") auto

definition simulate_payoff_total_budget_app ::
  "heap \<Rightarrow> addr list \<Rightarrow> rat \<Rightarrow> string \<Rightarrow> int \<Rightarrow> rat \<Rightarrow> heap \<times> (error + sim_result)" where
  "simulate_payoff_total_budget_app h cards budget strat max_months epsilon =
     (if budget \<le> 0 then (h, Inl ValueError)
      else (case deepcopy h cards of
              (h0, cards') \<Rightarrow>
                (case budget_loop_app cards' budget strat max_months epsilon h0 0 0 of
                   (h', n, out) \<Rightarrow> (h', out))))"

subsection \<open>Manual-payment simulation\<close>

text \<open>
  \<^verbatim>\<open>monthly_payments\<close> is a dict, given by its items in insertion order. The dict
  \<^verbatim>\<open>name_to_card\<close> is built from the copied cards in list order, so that of two cards
  with one name the later one is kept.
\<close>

definition name_to_card :: "heap \<Rightarrow> addr list \<Rightarrow> (string \<rightharpoonup> addr)" where
  "name_to_card h cards = foldl (\<lambda>d c. d(name (h ! c) \<mapsto> c)) Map.empty cards"

text \<open>The loop over \<^verbatim>\<open>monthly_payments.items()\<close> of one month.\<close>

fun pay_manual ::
  "rat \<Rightarrow> (string \<rightharpoonup> addr) \<Rightarrow> (string \<times> rat) list \<Rightarrow> heap \<Rightarrow> heap \<times> error option" where
  "pay_manual epsilon d [] h = (h, None)"
| "pay_manual epsilon d ((nm, pay_amt) # ps) h =
     (case d nm of
        None \<Rightarrow> (h, Some KeyError)
      | Some c \<Rightarrow>
          (if balance (h ! c) > epsilon \<and> pay_amt > 0
           then pay_manual epsilon d ps
                  (set_balance h c (balance (h ! c) - min (balance (h ! c)) pay_amt))
           else pay_manual epsilon d ps h))"

definition manual_result ::
  "int \<Rightarrow> rat \<Rightarrow> (string \<times> rat) list \<Rightarrow> snapshot list \<Rightarrow> sim_result" where
  "manual_result n total_interest_paid payments hist =
     \<lparr>paid_off = True, months = n, total_interest = total_interest_paid,
      reason = None, monthly_budget = None, strategy = None,
      monthly_payments = Some payments, history = Some hist\<rparr>"

function manual_loop ::
  "addr list \<Rightarrow> (string \<times> rat) list \<Rightarrow> (string \<rightharpoonup> addr) \<Rightarrow> int \<Rightarrow> rat \<Rightarrow> heap \<Rightarrow> int \<Rightarrow> rat
     \<Rightarrow> snapshot list \<Rightarrow> heap \<times> int \<times> (error + sim_result)" where
  "manual_loop cards payments d max_months epsilon h n total_interest_paid hist =
     (if total_balance h cards > epsilon
      then (if n + 1 > max_months
            then (h, n + 1,
                  Inr (cap_result (n + 1) total_interest_paid
                         ''Hit max_months (payments may be too low).'' (Some hist)))
            else (case accrue epsilon cards (h, 0) of
                    (h1, month_interest) \<Rightarrow>
                      (case pay_manual epsilon d payments h1 of
                         (h2, Some e) \<Rightarrow> (h2, n + 1, Inl e)
                       | (h2, None) \<Rightarrow>
                           manual_loop cards payments d max_months epsilon h2 (n + 1)
                             (total_interest_paid + month_interest)
                             (hist @ [take_snapshot h2 cards (n + 1) month_interest
                                        (total_interest_paid + month_interest)]))))
      else (h, n, Inr (manual_result n total_interest_paid payments hist)))"
  by pat_completeness auto
termination
  by (relation "measure (\<lambda>(cards, payments, d, max_months, epsilon, h, n, t, hist).
                  nat (max_months - n))") auto

definition simulate_payoff_manual_payments ::
  "heap \<Rightarrow> addr list \<Rightarrow> (string \<times> rat) list \<Rightarrow> int \<Rightarrow> rat \<Rightarrow> heap \<times> (error + sim_result)" where
  "simulate_payoff_manual_payments h cards payments max_months epsilon =
     (case deepcopy h cards of
        (h0, cards') \<Rightarrow>
          if list_ex (\<lambda>(k, v). v < 0) payments then (h0, Inl ValueError)
          else (case manual_loop cards' payments (name_to_card h0 cards') max_months epsilon
                       h0 0 0 [] of
                  (h', n, out) \<Rightarrow> (h', out)))"

section \<open>Predicates of the statements\<close>

text \<open>
  What holds of the counter \<^verbatim>\<open>months\<close> and of the outcome when a loop that was entered
  with the counter at \<open>n\<close> is left: the counter has grown by at most
  \<open>max n max_months + 1 - n\<close>; a raise or a success leaves it at most at the larger of \<open>n\<close>
  and the cap; a result that is not paid off has \<^verbatim>\<open>months\<close> one above that, with the reason.
\<close>

definition within_cap :: "int \<Rightarrow> int \<Rightarrow> string \<Rightarrow> int \<times> (error + sim_result) \<Rightarrow> bool" where
  "within_cap n max_months why x =
     (case x of (n', out) \<Rightarrow>
        n \<le> n' \<and> n' \<le> max n max_months + 1 \<and>
        (case out of
           Inl e \<Rightarrow> n' \<le> max n max_months
         | Inr r \<Rightarrow> months r = n' \<and>
             (if paid_off r then n' \<le> max n max_months \<and> reason r = None
              else n' = max n max_months + 1 \<and> reason r = Some why)))"

text \<open>
  That \<open>k\<close> more months are simulated in full from a state of the loop, and the state they
  lead to: each of them finds the total balance above \<^verbatim>\<open>epsilon\<close>, accrues, allocates
  without raising and without breaking out of the loop, and appends its snapshot. The cap
  is not looked at here.
\<close>

fun simulated_months ::
  "nat \<Rightarrow> addr list \<Rightarrow> rat \<Rightarrow> string \<Rightarrow> rat \<Rightarrow> heap \<Rightarrow> int \<Rightarrow> rat \<Rightarrow> snapshot list
     \<Rightarrow> (heap \<times> int \<times> rat \<times> snapshot list) option" where
  "simulated_months 0 cards budget strat epsilon h n t hist = Some (h, n, t, hist)"
| "simulated_months (Suc k) cards budget strat epsilon h n t hist =
     (if epsilon < total_balance h cards
      then (case accrue epsilon cards (h, 0) of
              (h1, mi) \<Rightarrow>
                (case allocate budget strat epsilon cards h1 of
                   (h2, Done) \<Rightarrow>
                     simulated_months k cards budget strat epsilon h2 (n + 1) (t + mi)
                       (hist @ [take_snapshot h2 cards (n + 1) mi (t + mi)])
                 | (h2, Raised e) \<Rightarrow> None
                 | (h2, Broke) \<Rightarrow> None))
      else None)"

fun simulated_months_manual ::
  "nat \<Rightarrow> addr list \<Rightarrow> (string \<times> rat) list \<Rightarrow> (string \<rightharpoonup> addr) \<Rightarrow> rat \<Rightarrow> heap \<Rightarrow> int \<Rightarrow> rat
     \<Rightarrow> snapshot list \<Rightarrow> (heap \<times> int \<times> rat \<times> snapshot list) option" where
  "simulated_months_manual 0 cards payments d epsilon h n t hist = Some (h, n, t, hist)"
| "simulated_months_manual (Suc k) cards payments d epsilon h n t hist =
     (if epsilon < total_balance h cards
      then (case accrue epsilon cards (h, 0) of
              (h1, mi) \<Rightarrow>
                (case pay_manual epsilon d payments h1 of
                   (h2, None) \<Rightarrow>
                     simulated_months_manual k cards payments d epsilon h2 (n + 1) (t + mi)
                       (hist @ [take_snapshot h2 cards (n + 1) mi (t + mi)])
                 | (h2, Some e) \<Rightarrow> None))
      else None)"

text \<open>The interest one accrual step adds to a card: nothing unless its balance is above \<^verbatim>\<open>epsilon\<close>.\<close>

definition accrued :: "rat \<Rightarrow> Card \<Rightarrow> rat" where
  "accrued epsilon x = (if epsilon < balance x then balance x * monthly_rate (apr x) else 0)"

text \<open>The invariant of the data model on the cards of a list: no negative balance, no negative APR.\<close>

definition nonneg :: "heap \<Rightarrow> addr list \<Rightarrow> bool" where
  "nonneg h cards = list_all (\<lambda>c. 0 \<le> balance (h ! c) \<and> 0 \<le> apr (h ! c)) cards"

text \<open>
  The same for what a simulation reports: in every snapshot of the history, the total
  balance and every balance of the dict are at least 0.
\<close>

definition snapshot_nonneg :: "snapshot \<Rightarrow> bool" where
  "snapshot_nonneg s = (0 \<le> snapshot_total_balance s \<and> list_all (\<lambda>p. 0 \<le> snd p) (balances s))"

definition history_nonneg :: "error + sim_result \<Rightarrow> bool" where
  "history_nonneg out =
     (case out of
        Inl e \<Rightarrow> True
      | Inr r \<Rightarrow> (case history r of None \<Rightarrow> True | Some hist \<Rightarrow> list_all snapshot_nonneg hist))"




section \<open>The engine in double precision\<close>

text \<open>
  A Python \<^verbatim>\<open>float\<close> is an IEEE 754 double, and every operation \<^verbatim>\<open>+\<close>, \<^verbatim>\<open>-\<close>, \<^verbatim>\<open>*\<close>,
  \<^verbatim>\<open>/\<close> gives the exact result rounded to the nearest double, ties to the even
  significand. The functions of this section are the budget-based simulations again, with
  a rounding function \<open>rd\<close> applied to the result of every arithmetic operation of the
  source; comparisons, \<^verbatim>\<open>min\<close>, \<^verbatim>\<open>max\<close> and negation are exact. With the identity for
  \<open>rd\<close> they are the functions of the sections above; with \<open>round_double\<close> they compute what
  CPython computes, as long as no result overflows or falls below the normal range
  (infinities, NaN and subnormal numbers are not modelled).
\<close>

subsection \<open>Rounding to the nearest double\<close>





subsection \<open>The steps of one month\<close>









subsection \<open>Budget-based simulation (\<^verbatim>\<open>debt_calculator.py\<close>)\<close>



subsection \<open>Budget-based simulation (\<^verbatim>\<open>debt_app_streamlit.py\<close>)\<close>




subsection \<open>Predicates of the statements\<close>



section \<open>Lemmas shared by the claims\<close>

text \<open>
  The equations of the three loops are their own right-hand sides unfolded once, so they
  are taken out of the simplifier and used through the case rules below.
\<close>

declare budget_loop.simps [simp del] budget_loop_app.simps [simp del] manual_loop.simps [simp del]

subsection \<open>Where a pass writes\<close>

lemma pay_first_match_find:
  "pay_first_match h cards nm amount =
     (case find (\<lambda>c. name (h ! c) = nm) cards of
        None \<Rightarrow> (False, h)
      | Some c \<Rightarrow> (True, h[c := (h ! c)\<lparr>balance := max 0 (balance (h ! c) - amount)\<rparr>]))"
  by (induction cards) (simp_all add: set_balance_def)

lemma length_set_balance [simp]: "length (set_balance h c v) = length h"
  by (simp add: set_balance_def)

lemma take_set_balance: "n \<le> c \<Longrightarrow> take n (set_balance h c v) = take n h"
  by (simp add: set_balance_def)

lemma accrue_frame:
  "\<forall>c \<in> set cs. n \<le> c \<Longrightarrow> take n (fst (accrue epsilon cs (h, acc))) = take n h"
  by (induction cs arbitrary: h acc) (simp_all add: Let_def take_set_balance)

lemma pay_in_order_frame:
  "\<forall>c \<in> set cs. n \<le> c \<Longrightarrow> take n (fst (pay_in_order epsilon cs (h, r))) = take n h"
  by (induction cs arbitrary: h r) (simp_all add: Let_def take_set_balance)

lemma pay_shares_frame:
  "\<forall>c \<in> set cs. n \<le> c \<Longrightarrow> take n (fst (pay_shares r t cs h)) = take n h"
  by (induction cs arbitrary: h) (simp_all add: Let_def take_set_balance)

lemma pay_manual_frame:
  "\<forall>c \<in> ran d. n \<le> c \<Longrightarrow> take n (fst (pay_manual epsilon d ps h)) = take n h"
proof (induction ps arbitrary: h)
  case Nil
  then show ?case by simp
next
  case (Cons p ps)
  obtain nm amt where p: "p = (nm, amt)" by (cases p)
  show ?case
  proof (cases "d nm")
    case None
    then show ?thesis by (simp add: p)
  next
    case (Some c)
    then have "n \<le> c" using Cons.prems by (auto simp: ran_def)
    then show ?thesis using Cons.IH [OF Cons.prems] Some
      by (simp add: p take_set_balance)
  qed
qed

subsection \<open>The allocation step, strategy by strategy\<close>

lemma set_active_cards: "set (active_cards epsilon h cards) \<subseteq> set cards"
  by (auto simp: active_cards_def)

lemma allocate_invalid:
  "strat \<noteq> ''avalanche'' \<Longrightarrow> strat \<noteq> ''snowball'' \<Longrightarrow> strat \<noteq> ''proportional'' \<Longrightarrow>
   allocate budget strat epsilon cards h = (h, Raised ValueError)"
  by (simp add: allocate_def)

lemma allocate_proportional:
  "allocate budget ''proportional'' epsilon cards h =
     (if sum_list (map (\<lambda>c. balance (h ! c)) (active_cards epsilon h cards)) \<le> epsilon
      then (h, Broke)
      else (case pay_shares budget (sum_list (map (\<lambda>c. balance (h ! c)) (active_cards epsilon h cards)))
                   (active_cards epsilon h cards) h of
              (h', Some e) \<Rightarrow> (h', Raised e)
            | (h', None) \<Rightarrow> (h', Done)))"
  by (simp add: allocate_def Let_def)

lemma allocate_avalanche:
  "allocate budget ''avalanche'' epsilon cards h =
     (case pay_in_order epsilon (sort_key (avalanche_key h) (active_cards epsilon h cards)) (h, budget) of
        (h', remaining) \<Rightarrow>
          if remaining > epsilon
          then (fst (pay_in_order epsilon
                       (sort_key (avalanche_key h') (active_cards epsilon h' cards)) (h', remaining)),
                Done)
          else (h', Done))"
  by (simp add: allocate_def Let_def split: prod.splits)

lemma allocate_snowball:
  "allocate budget ''snowball'' epsilon cards h =
     (case pay_in_order epsilon (sort_key (snowball_key h) (active_cards epsilon h cards)) (h, budget) of
        (h', remaining) \<Rightarrow>
          if remaining > epsilon
          then (fst (pay_in_order epsilon
                       (sort_key (snowball_key h') (active_cards epsilon h' cards)) (h', remaining)),
                Done)
          else (h', Done))"
  by (simp add: allocate_def Let_def split: prod.splits)

lemma strategy_cases:
  obtains (avalanche) "strat = ''avalanche''" | (snowball) "strat = ''snowball''"
    | (proportional) "strat = ''proportional''"
    | (invalid) "strat \<noteq> ''avalanche''" "strat \<noteq> ''snowball''" "strat \<noteq> ''proportional''"
  by blast

lemma two_pass_frame:
  assumes "\<forall>c \<in> set cards. n \<le> c"
  shows "take n (fst (case pay_in_order epsilon (sort_key (k h) (active_cards epsilon h cards)) (h, budget) of
        (h', remaining) \<Rightarrow>
          if remaining > epsilon
          then (fst (pay_in_order epsilon
                       (sort_key (k h') (active_cards epsilon h' cards)) (h', remaining)),
                Done)
          else (h', Done))) = take n h"
proof -
  have ord: "\<forall>c \<in> set (sort_key (k h') (active_cards epsilon h' cards)). n \<le> c" for h'
    using assms set_active_cards by fastforce
  obtain h' r where w: "pay_in_order epsilon (sort_key (k h) (active_cards epsilon h cards)) (h, budget) = (h', r)"
    by (cases "pay_in_order epsilon (sort_key (k h) (active_cards epsilon h cards)) (h, budget)")
  have 1: "take n h' = take n h"
    using pay_in_order_frame [OF ord] w by (metis fst_conv)
  have 2: "take n (fst (pay_in_order epsilon (sort_key (k h') (active_cards epsilon h' cards)) (h', r))) = take n h'"
    by (rule pay_in_order_frame [OF ord])
  show ?thesis using 1 2 by (simp add: w)
qed

lemma allocate_frame:
  assumes "\<forall>c \<in> set cards. n \<le> c"
  shows "take n (fst (allocate budget strat epsilon cards h)) = take n h"
proof (cases strat rule: strategy_cases)
  case avalanche
  show ?thesis unfolding avalanche allocate_avalanche by (rule two_pass_frame [OF assms])
next
  case snowball
  show ?thesis unfolding snowball allocate_snowball by (rule two_pass_frame [OF assms])
next
  case proportional
  have act: "\<forall>c \<in> set (active_cards epsilon h cards). n \<le> c"
    using assms set_active_cards by blast
  show ?thesis unfolding proportional allocate_proportional
    using pay_shares_frame [OF act]
    by (auto split: prod.splits option.splits dest: arg_cong [where f = "\<lambda>x. take n (fst x)"])
next
  case invalid
  then show ?thesis by (simp add: allocate_invalid)
qed

subsection \<open>The loops, outcome by outcome\<close>

lemma budget_loop_cases [case_names exit cap raise break continue]:
  obtains
    (exit) "\<not> epsilon < total_balance h cards"
      "budget_loop cards budget strat max_months epsilon h n t hist =
         (h, n, Inr (budget_result n t budget strat hist))"
  | (cap) "epsilon < total_balance h cards" "max_months < n + 1"
      "budget_loop cards budget strat max_months epsilon h n t hist =
         (h, n + 1, Inr (cap_result (n + 1) t ''Hit max_months (budget may be too low).'' (Some hist)))"
  | (raise) h1 mi h2 e where "epsilon < total_balance h cards" "\<not> max_months < n + 1"
      "accrue epsilon cards (h, 0) = (h1, mi)"
      "allocate budget strat epsilon cards h1 = (h2, Raised e)"
      "budget_loop cards budget strat max_months epsilon h n t hist = (h2, n + 1, Inl e)"
  | (break) h1 mi h2 where "epsilon < total_balance h cards" "\<not> max_months < n + 1"
      "accrue epsilon cards (h, 0) = (h1, mi)"
      "allocate budget strat epsilon cards h1 = (h2, Broke)"
      "budget_loop cards budget strat max_months epsilon h n t hist =
         (h2, n + 1, Inr (budget_result (n + 1) (t + mi) budget strat hist))"
  | (continue) h1 mi h2 where "epsilon < total_balance h cards" "\<not> max_months < n + 1"
      "accrue epsilon cards (h, 0) = (h1, mi)"
      "allocate budget strat epsilon cards h1 = (h2, Done)"
      "budget_loop cards budget strat max_months epsilon h n t hist =
         budget_loop cards budget strat max_months epsilon h2 (n + 1) (t + mi)
           (hist @ [take_snapshot h2 cards (n + 1) mi (t + mi)])"
proof -
  obtain h1 mi where a: "accrue epsilon cards (h, 0) = (h1, mi)"
    by (cases "accrue epsilon cards (h, 0)")
  obtain h2 f where b: "allocate budget strat epsilon cards h1 = (h2, f)"
    by (cases "allocate budget strat epsilon cards h1")
  show thesis
  proof (cases "epsilon < total_balance h cards")
    case False
    then show thesis using exit by (simp add: budget_loop.simps)
  next
    case big: True
    show thesis
    proof (cases "max_months < n + 1")
      case True
      then show thesis using big cap by (simp add: budget_loop.simps)
    next
      case False
      show thesis
      proof (cases f)
        case (Raised e)
        show thesis
          by (rule raise [OF big False a b [unfolded Raised]])
             (use big False a b Raised in \<open>simp add: budget_loop.simps [of cards budget strat max_months epsilon h]\<close>)
      next
        case Broke
        show thesis
          by (rule break [OF big False a b [unfolded Broke]])
             (use big False a b Broke in \<open>simp add: budget_loop.simps [of cards budget strat max_months epsilon h]\<close>)
      next
        case Done
        show thesis
          by (rule continue [OF big False a b [unfolded Done]])
             (use big False a b Done in \<open>simp add: budget_loop.simps [of cards budget strat max_months epsilon h]\<close>)
      qed
    qed
  qed
qed

lemma budget_loop_frame:
  "\<forall>c \<in> set cards. k \<le> c \<Longrightarrow>
   take k (fst (budget_loop cards budget strat max_months epsilon h n t hist)) = take k h"
proof (induction cards budget strat max_months epsilon h n t hist rule: budget_loop.induct)
  case (1 cards budget strat max_months epsilon h n t hist)
  show ?case
  proof (cases rule: budget_loop_cases [of epsilon h cards budget strat max_months n t hist])
    case exit
    then show ?thesis by simp
  next
    case cap
    then show ?thesis by simp
  next
    case (raise h1 mi h2 e)
    have "take k h1 = take k h" using accrue_frame [OF "1.prems"] raise(3) by (metis fst_conv)
    moreover have "take k h2 = take k h1" using allocate_frame [OF "1.prems"] raise(4) by (metis fst_conv)
    ultimately show ?thesis using raise(5) by simp
  next
    case (break h1 mi h2)
    have "take k h1 = take k h" using accrue_frame [OF "1.prems"] break(3) by (metis fst_conv)
    moreover have "take k h2 = take k h1" using allocate_frame [OF "1.prems"] break(4) by (metis fst_conv)
    ultimately show ?thesis using break(5) by simp
  next
    case (continue h1 mi h2)
    have "take k h1 = take k h" using accrue_frame [OF "1.prems"] continue(3) by (metis fst_conv)
    moreover have "take k h2 = take k h1" using allocate_frame [OF "1.prems"] continue(4) by (metis fst_conv)
    moreover have "take k (fst (budget_loop cards budget strat max_months epsilon h2 (n + 1) (t + mi)
           (hist @ [take_snapshot h2 cards (n + 1) mi (t + mi)]))) = take k h2"
      using "1.IH" [OF continue(1) continue(2) continue(3) [symmetric] continue(4) [symmetric] refl "1.prems"] .
    ultimately show ?thesis using continue(5) by simp
  qed
qed

lemma deepcopy_cards_frame:
  "k \<le> length h \<Longrightarrow> \<forall>p \<in> set memo. k \<le> snd p \<Longrightarrow> deepcopy_cards memo cs h = (h', cs') \<Longrightarrow>
   take k h' = take k h \<and> (\<forall>c \<in> set cs'. k \<le> c)"
proof (induction cs arbitrary: memo h h' cs')
  case Nil
  then show ?case by simp
next
  case (Cons c cs)
  show ?case
  proof (cases "map_of memo c")
    case (Some c')
    obtain h1 cs1 where r: "deepcopy_cards memo cs h = (h1, cs1)"
      by (cases "deepcopy_cards memo cs h")
    have "k \<le> c'" using map_of_SomeD [OF Some] Cons.prems(2) by fastforce
    then show ?thesis using Cons.IH [OF Cons.prems(1,2) r] Cons.prems(3) Some r by auto
  next
    case None
    obtain h1 cs1 where r: "deepcopy_cards ((c, length h) # memo) cs (h @ [h ! c]) = (h1, cs1)"
      by (cases "deepcopy_cards ((c, length h) # memo) cs (h @ [h ! c])")
    have "take k h1 = take k (h @ [h ! c]) \<and> (\<forall>c \<in> set cs1. k \<le> c)"
      using Cons.prems(1,2) by (intro Cons.IH [OF _ _ r]) auto
    then show ?thesis using Cons.prems(1,3) None r by auto
  qed
qed

lemma deepcopy_frame:
  "deepcopy h cards = (h', cards') \<Longrightarrow> take (length h) h' = h \<and> (\<forall>c \<in> set cards'. length h \<le> c)"
  using deepcopy_cards_frame [of "length h" h "[]" cards h' cards'] by (simp add: deepcopy_def)

lemma budget_loop_app_cases [case_names exit cap raise break continue]:
  obtains
    (exit) "\<not> epsilon < total_balance h cards"
      "budget_loop_app cards budget strat max_months epsilon h n t = (h, n, Inr (app_result n t))"
  | (cap) "epsilon < total_balance h cards" "max_months < n + 1"
      "budget_loop_app cards budget strat max_months epsilon h n t =
         (h, n + 1, Inr (cap_result (n + 1) t ''Hit max_months (budget may be too low).'' None))"
  | (raise) h1 t1 h2 e where "epsilon < total_balance h cards" "\<not> max_months < n + 1"
      "accrue epsilon cards (h, t) = (h1, t1)"
      "allocate_app budget strat epsilon cards h1 = (h2, Raised e)"
      "budget_loop_app cards budget strat max_months epsilon h n t = (h2, n + 1, Inl e)"
  | (break) h1 t1 h2 where "epsilon < total_balance h cards" "\<not> max_months < n + 1"
      "accrue epsilon cards (h, t) = (h1, t1)"
      "allocate_app budget strat epsilon cards h1 = (h2, Broke)"
      "budget_loop_app cards budget strat max_months epsilon h n t =
         (h2, n + 1, Inr (app_result (n + 1) t1))"
  | (continue) h1 t1 h2 where "epsilon < total_balance h cards" "\<not> max_months < n + 1"
      "accrue epsilon cards (h, t) = (h1, t1)"
      "allocate_app budget strat epsilon cards h1 = (h2, Done)"
      "budget_loop_app cards budget strat max_months epsilon h n t =
         budget_loop_app cards budget strat max_months epsilon h2 (n + 1) t1"
proof -
  obtain h1 t1 where a: "accrue epsilon cards (h, t) = (h1, t1)"
    by (cases "accrue epsilon cards (h, t)")
  obtain h2 f where b: "allocate_app budget strat epsilon cards h1 = (h2, f)"
    by (cases "allocate_app budget strat epsilon cards h1")
  show thesis
  proof (cases "epsilon < total_balance h cards")
    case False
    then show thesis using exit by (simp add: budget_loop_app.simps)
  next
    case big: True
    show thesis
    proof (cases "max_months < n + 1")
      case True
      then show thesis using big cap by (simp add: budget_loop_app.simps)
    next
      case False
      show thesis
      proof (cases f)
        case (Raised e)
        show thesis
          by (rule raise [OF big False a b [unfolded Raised]])
             (use big False a b Raised in
               \<open>simp add: budget_loop_app.simps [of cards budget strat max_months epsilon h]\<close>)
      next
        case Broke
        show thesis
          by (rule break [OF big False a b [unfolded Broke]])
             (use big False a b Broke in
               \<open>simp add: budget_loop_app.simps [of cards budget strat max_months epsilon h]\<close>)
      next
        case Done
        show thesis
          by (rule continue [OF big False a b [unfolded Done]])
             (use big False a b Done in
               \<open>simp add: budget_loop_app.simps [of cards budget strat max_months epsilon h]\<close>)
      qed
    qed
  qed
qed

lemma manual_loop_cases [case_names exit cap raise continue]:
  obtains
    (exit) "\<not> epsilon < total_balance h cards"
      "manual_loop cards payments d max_months epsilon h n t hist =
         (h, n, Inr (manual_result n t payments hist))"
  | (cap) "epsilon < total_balance h cards" "max_months < n + 1"
      "manual_loop cards payments d max_months epsilon h n t hist =
         (h, n + 1,
          Inr (cap_result (n + 1) t ''Hit max_months (payments may be too low).'' (Some hist)))"
  | (raise) h1 mi h2 e where "epsilon < total_balance h cards" "\<not> max_months < n + 1"
      "accrue epsilon cards (h, 0) = (h1, mi)"
      "pay_manual epsilon d payments h1 = (h2, Some e)"
      "manual_loop cards payments d max_months epsilon h n t hist = (h2, n + 1, Inl e)"
  | (continue) h1 mi h2 where "epsilon < total_balance h cards" "\<not> max_months < n + 1"
      "accrue epsilon cards (h, 0) = (h1, mi)"
      "pay_manual epsilon d payments h1 = (h2, None)"
      "manual_loop cards payments d max_months epsilon h n t hist =
         manual_loop cards payments d max_months epsilon h2 (n + 1) (t + mi)
           (hist @ [take_snapshot h2 cards (n + 1) mi (t + mi)])"
proof -
  obtain h1 mi where a: "accrue epsilon cards (h, 0) = (h1, mi)"
    by (cases "accrue epsilon cards (h, 0)")
  obtain h2 f where b: "pay_manual epsilon d payments h1 = (h2, f)"
    by (cases "pay_manual epsilon d payments h1")
  show thesis
  proof (cases "epsilon < total_balance h cards")
    case False
    then show thesis using exit by (simp add: manual_loop.simps)
  next
    case big: True
    show thesis
    proof (cases "max_months < n + 1")
      case True
      then show thesis using big cap by (simp add: manual_loop.simps)
    next
      case False
      show thesis
      proof (cases f)
        case (Some e)
        show thesis
          by (rule raise [OF big False a b [unfolded Some]])
             (use big False a b Some in
               \<open>simp add: manual_loop.simps [of cards payments d max_months epsilon h]\<close>)
      next
        case None
        show thesis
          by (rule continue [OF big False a b [unfolded None]])
             (use big False a b None in
               \<open>simp add: manual_loop.simps [of cards payments d max_months epsilon h]\<close>)
      qed
    qed
  qed
qed

lemma manual_loop_frame:
  "\<forall>c \<in> set cards. k \<le> c \<Longrightarrow> \<forall>c \<in> ran d. k \<le> c \<Longrightarrow>
   take k (fst (manual_loop cards payments d max_months epsilon h n t hist)) = take k h"
proof (induction cards payments d max_months epsilon h n t hist rule: manual_loop.induct)
  case (1 cards payments d max_months epsilon h n t hist)
  show ?case
  proof (cases rule: manual_loop_cases [of epsilon h cards payments d max_months n t hist])
    case exit
    then show ?thesis by simp
  next
    case cap
    then show ?thesis by simp
  next
    case (raise h1 mi h2 e)
    have "take k h1 = take k h"
      using accrue_frame [OF "1.prems"(1)] raise(3) by (metis fst_conv)
    moreover have "take k h2 = take k h1"
      using pay_manual_frame [OF "1.prems"(2)] raise(4) by (metis fst_conv)
    ultimately show ?thesis using raise(5) by simp
  next
    case (continue h1 mi h2)
    have "take k h1 = take k h"
      using accrue_frame [OF "1.prems"(1)] continue(3) by (metis fst_conv)
    moreover have "take k h2 = take k h1"
      using pay_manual_frame [OF "1.prems"(2)] continue(4) by (metis fst_conv)
    moreover have "take k (fst (manual_loop cards payments d max_months epsilon h2 (n + 1) (t + mi)
           (hist @ [take_snapshot h2 cards (n + 1) mi (t + mi)]))) = take k h2"
      using "1.IH" [OF continue(1) continue(2) continue(3) [symmetric] continue(4) [symmetric]
                      refl "1.prems"] .
    ultimately show ?thesis using continue(5) by simp
  qed
qed

lemma ran_name_to_card: "ran (name_to_card h cards) \<subseteq> set cards"
proof -
  have "ran (foldl (\<lambda>d c. d(name (h ! c) \<mapsto> c)) d0 cs) \<subseteq> ran d0 \<union> set cs" for d0 cs
  proof (induction cs arbitrary: d0)
    case Nil
    show ?case by simp
  next
    case (Cons c cs)
    have "ran (d0(name (h ! c) \<mapsto> c)) \<subseteq> ran d0 \<union> {c}"
      by (auto simp: ran_def split: if_splits)
    with Cons [of "d0(name (h ! c) \<mapsto> c)"] show ?case
      unfolding foldl_Cons list.set by blast
  qed
  from this [of Map.empty cards] show ?thesis by (simp add: name_to_card_def)
qed

lemma allocate_app_invalid:
  "strat \<noteq> ''avalanche'' \<Longrightarrow> strat \<noteq> ''snowball'' \<Longrightarrow> strat \<noteq> ''proportional'' \<Longrightarrow>
   allocate_app budget strat epsilon cards h = (h, Raised ValueError)"
  by (simp add: allocate_app_def)

lemma allocate_app_proportional:
  "allocate_app budget ''proportional'' epsilon cards h = allocate budget ''proportional'' epsilon cards h"
  by (simp add: allocate_app_def allocate_def)

lemma allocate_app_avalanche:
  "allocate_app budget ''avalanche'' epsilon cards h =
     (fst (pay_in_order epsilon (sort_key (avalanche_key h) (active_cards epsilon h cards)) (h, budget)),
      Done)"
  by (simp add: allocate_app_def)

lemma allocate_app_snowball:
  "allocate_app budget ''snowball'' epsilon cards h =
     (fst (pay_in_order epsilon (sort_key (snowball_key h) (active_cards epsilon h cards)) (h, budget)),
      Done)"
  by (simp add: allocate_app_def)

lemma allocate_app_frame:
  assumes "\<forall>c \<in> set cards. n \<le> c"
  shows "take n (fst (allocate_app budget strat epsilon cards h)) = take n h"
proof -
  have ord: "\<forall>c \<in> set (sort_key k (active_cards epsilon h cards)). n \<le> c"
    for k :: "addr \<Rightarrow> rat \<times> rat"
    using assms set_active_cards by fastforce
  show ?thesis
  proof (cases strat rule: strategy_cases)
    case avalanche
    show ?thesis unfolding avalanche allocate_app_avalanche
      using pay_in_order_frame [OF ord] by simp
  next
    case snowball
    show ?thesis unfolding snowball allocate_app_snowball
      using pay_in_order_frame [OF ord] by simp
  next
    case proportional
    show ?thesis unfolding proportional allocate_app_proportional by (rule allocate_frame [OF assms])
  next
    case invalid
    then show ?thesis by (simp add: allocate_app_invalid)
  qed
qed

lemma budget_loop_app_frame:
  "\<forall>c \<in> set cards. k \<le> c \<Longrightarrow>
   take k (fst (budget_loop_app cards budget strat max_months epsilon h n t)) = take k h"
proof (induction cards budget strat max_months epsilon h n t rule: budget_loop_app.induct)
  case (1 cards budget strat max_months epsilon h n t)
  show ?case
  proof (cases rule: budget_loop_app_cases [of epsilon h cards budget strat max_months n t])
    case exit
    then show ?thesis by simp
  next
    case cap
    then show ?thesis by simp
  next
    case (raise h1 t1 h2 e)
    have "take k h1 = take k h" using accrue_frame [OF "1.prems"] raise(3) by (metis fst_conv)
    moreover have "take k h2 = take k h1"
      using allocate_app_frame [OF "1.prems"] raise(4) by (metis fst_conv)
    ultimately show ?thesis using raise(5) by simp
  next
    case (break h1 t1 h2)
    have "take k h1 = take k h" using accrue_frame [OF "1.prems"] break(3) by (metis fst_conv)
    moreover have "take k h2 = take k h1"
      using allocate_app_frame [OF "1.prems"] break(4) by (metis fst_conv)
    ultimately show ?thesis using break(5) by simp
  next
    case (continue h1 t1 h2)
    have "take k h1 = take k h" using accrue_frame [OF "1.prems"] continue(3) by (metis fst_conv)
    moreover have "take k h2 = take k h1"
      using allocate_app_frame [OF "1.prems"] continue(4) by (metis fst_conv)
    moreover have "take k (fst (budget_loop_app cards budget strat max_months epsilon h2 (n + 1) t1))
        = take k h2"
      using "1.IH" [OF continue(1) continue(2) continue(3) [symmetric] continue(4) [symmetric]
                      refl "1.prems"] .
    ultimately show ?thesis using continue(5) by simp
  qed
qed

subsection \<open>The caller's heap is a prefix of the heap a simulation leaves\<close>

lemma simulate_payoff_total_budget_frame:
  "take (length h) (fst (simulate_payoff_total_budget h cards budget strat max_months epsilon)) = h"
proof -
  obtain h0 cards' where d: "deepcopy h cards = (h0, cards')" by (cases "deepcopy h cards")
  note f = deepcopy_frame [OF d]
  have "take (length h) (fst (budget_loop cards' budget strat max_months epsilon h0 0 0 [])) = h"
    using budget_loop_frame [of cards' "length h"] f by simp
  then show ?thesis
    by (cases "budget_loop cards' budget strat max_months epsilon h0 0 0 []")
      (simp add: simulate_payoff_total_budget_def d)
qed

lemma simulate_payoff_total_budget_app_frame:
  "take (length h) (fst (simulate_payoff_total_budget_app h cards budget strat max_months epsilon)) = h"
proof -
  obtain h0 cards' where d: "deepcopy h cards = (h0, cards')" by (cases "deepcopy h cards")
  note f = deepcopy_frame [OF d]
  have "take (length h) (fst (budget_loop_app cards' budget strat max_months epsilon h0 0 0)) = h"
    using budget_loop_app_frame [of cards' "length h"] f by simp
  then show ?thesis
    by (cases "budget_loop_app cards' budget strat max_months epsilon h0 0 0")
      (simp add: simulate_payoff_total_budget_app_def d)
qed

lemma simulate_payoff_manual_payments_frame:
  "take (length h) (fst (simulate_payoff_manual_payments h cards payments max_months epsilon)) = h"
proof -
  obtain h0 cards' where d: "deepcopy h cards = (h0, cards')" by (cases "deepcopy h cards")
  note f = deepcopy_frame [OF d]
  have "\<forall>c \<in> ran (name_to_card h0 cards'). length h \<le> c"
    using ran_name_to_card [of h0 cards'] f by blast
  then have "take (length h) (fst (manual_loop cards' payments (name_to_card h0 cards')
      max_months epsilon h0 0 0 [])) = h"
    using manual_loop_frame [of cards' "length h"] f by simp
  then show ?thesis
    using f
    by (cases "manual_loop cards' payments (name_to_card h0 cards') max_months epsilon h0 0 0 []")
      (simp add: simulate_payoff_manual_payments_def d)
qed

subsection \<open>The copies hold what the originals hold\<close>

lemma deepcopy_cards_grows: "deepcopy_cards memo cs h = (h', cs') \<Longrightarrow> \<exists>ext. h' = h @ ext"
proof (induction cs arbitrary: memo h h' cs')
  case Nil
  then show ?case by simp
next
  case (Cons c cs)
  show ?case
  proof (cases "map_of memo c")
    case (Some c')
    obtain h1 cs1 where r: "deepcopy_cards memo cs h = (h1, cs1)"
      by (cases "deepcopy_cards memo cs h")
    show ?thesis using Cons.IH [OF r] Cons.prems Some r by auto
  next
    case None
    obtain h1 cs1 where r: "deepcopy_cards ((c, length h) # memo) cs (h @ [h ! c]) = (h1, cs1)"
      by (cases "deepcopy_cards ((c, length h) # memo) cs (h @ [h ! c])")
    show ?thesis using Cons.IH [OF r] Cons.prems None r by auto
  qed
qed

lemma deepcopy_cards_content:
  "\<forall>c \<in> set cs. c < length h \<Longrightarrow>
   \<forall>p \<in> set memo. fst p < length h \<and> snd p < length h \<and> h ! snd p = h ! fst p \<Longrightarrow>
   deepcopy_cards memo cs h = (h', cs') \<Longrightarrow>
   map ((!) h') cs' = map ((!) h) cs"
proof (induction cs arbitrary: memo h h' cs')
  case Nil
  then show ?case by simp
next
  case (Cons c cs)
  show ?case
  proof (cases "map_of memo c")
    case (Some c')
    obtain h1 cs1 where r: "deepcopy_cards memo cs h = (h1, cs1)"
      by (cases "deepcopy_cards memo cs h")
    have eq: "h' = h1" "cs' = c' # cs1" using Cons.prems(3) Some r by auto
    have m: "c' < length h" "h ! c' = h ! c"
      using map_of_SomeD [OF Some] Cons.prems(2) by fastforce+
    obtain ext where "h1 = h @ ext" using deepcopy_cards_grows [OF r] by blast
    then have "h1 ! c' = h ! c'" using m(1) by (simp add: nth_append)
    moreover have "map ((!) h1) cs1 = map ((!) h) cs"
      using Cons.prems(1,2) by (intro Cons.IH [OF _ _ r]) auto
    ultimately show ?thesis using m(2) by (simp add: eq)
  next
    case None
    let ?h = "h @ [h ! c]"
    obtain h1 cs1 where r: "deepcopy_cards ((c, length h) # memo) cs ?h = (h1, cs1)"
      by (cases "deepcopy_cards ((c, length h) # memo) cs ?h")
    have eq: "h' = h1" "cs' = length h # cs1" using Cons.prems(3) None r by auto
    have c: "c < length h" using Cons.prems(1) by simp
    obtain ext where "h1 = ?h @ ext" using deepcopy_cards_grows [OF r] by blast
    then have hd: "h1 ! length h = h ! c" by (simp add: nth_append)
    have "map ((!) h1) cs1 = map ((!) ?h) cs"
    proof (rule Cons.IH [OF _ _ r])
      show "\<forall>c \<in> set cs. c < length ?h" using Cons.prems(1) by auto
      show "\<forall>p \<in> set ((c, length h) # memo).
              fst p < length ?h \<and> snd p < length ?h \<and> ?h ! snd p = ?h ! fst p"
        using Cons.prems(2) c by (auto simp: nth_append)
    qed
    also have "\<dots> = map ((!) h) cs" using Cons.prems(1) by (auto simp: nth_append)
    finally show ?thesis using hd by (simp add: eq)
  qed
qed

lemma deepcopy_content:
  "list_all (\<lambda>c. c < length h) cards \<Longrightarrow> deepcopy h cards = (h0, cards') \<Longrightarrow>
   map ((!) h0) cards' = map ((!) h) cards"
  using deepcopy_cards_content [of cards h "[]" h0 cards'] by (simp add: deepcopy_def list_all_iff)

lemma total_balance_map: "total_balance h cards = sum_list (map balance (map ((!) h) cards))"
  by (simp add: total_balance_def comp_def)

lemma deepcopy_total_balance:
  "list_all (\<lambda>c. c < length h) cards \<Longrightarrow> deepcopy h cards = (h0, cards') \<Longrightarrow>
   total_balance h0 cards' = total_balance h cards"
  by (simp add: total_balance_map deepcopy_content)

lemma accrue_inactive:
  "\<forall>c \<in> set cs. balance (h ! c) \<le> epsilon \<Longrightarrow> accrue epsilon cs (h, acc) = (h, acc)"
  by (induction cs) auto

lemma active_cards_none:
  "\<forall>c \<in> set cards. balance (h ! c) \<le> epsilon \<Longrightarrow> active_cards epsilon h cards = []"
  by (auto simp: active_cards_def filter_empty_conv)

lemma deepcopy_list_all:
  assumes "list_all (\<lambda>c. c < length h) cards" "deepcopy h cards = (h0, cards')"
  shows "list_all (\<lambda>c. P (h0 ! c)) cards' = list_all (\<lambda>c. P (h ! c)) cards"
proof -
  have "list_all P (map ((!) h0) cards') = list_all P (map ((!) h) cards)"
    by (simp only: deepcopy_content [OF assms])
  then show ?thesis by (simp add: list.pred_map comp_def)
qed

subsection \<open>Accrual, card by card\<close>

lemma nth_set_balance:
  "set_balance h c v ! a = (if a = c \<and> c < length h then (h ! c)\<lparr>balance := v\<rparr> else h ! a)"
  by (cases "c < length h") (auto simp: set_balance_def nth_list_update list_update_beyond)

lemma accrue_other: "a \<notin> set cs \<Longrightarrow> fst (accrue epsilon cs (h, acc)) ! a = h ! a"
  by (induction cs arbitrary: h acc) (auto simp: Let_def nth_set_balance)

lemma accrue_distinct:
  "distinct cs \<Longrightarrow> \<forall>c \<in> set cs. c < length h \<Longrightarrow>
   (\<forall>c \<in> set cs. fst (accrue epsilon cs (h, acc)) ! c =
                   (h ! c)\<lparr>balance := balance (h ! c) + accrued epsilon (h ! c)\<rparr>) \<and>
   snd (accrue epsilon cs (h, acc)) = acc + sum_list (map (\<lambda>c. accrued epsilon (h ! c)) cs)"
proof (induction cs arbitrary: h acc)
  case Nil
  show ?case by simp
next
  case (Cons c cs)
  let ?h = "if epsilon < balance (h ! c)
            then set_balance h c (balance (h ! c) + balance (h ! c) * monthly_rate (apr (h ! c)))
            else h"
  let ?acc = "acc + accrued epsilon (h ! c)"
  have step: "accrue epsilon (c # cs) (h, acc) = accrue epsilon cs (?h, ?acc)"
    by (simp add: Let_def accrued_def)
  have len: "\<forall>a \<in> set cs. a < length ?h" using Cons.prems(2) by simp
  have same: "\<forall>a \<in> set cs. ?h ! a = h ! a"
    using Cons.prems(1) by (auto simp: nth_set_balance)
  have hc: "?h ! c = (h ! c)\<lparr>balance := balance (h ! c) + accrued epsilon (h ! c)\<rparr>"
    using Cons.prems(2) by (simp add: nth_set_balance accrued_def)
  note IH = Cons.IH [of ?h ?acc, OF _ len]
  have d: "distinct cs" "c \<notin> set cs" using Cons.prems(1) by auto
  have 1: "fst (accrue epsilon cs (?h, ?acc)) ! c = ?h ! c"
    by (rule accrue_other [OF d(2)])
  have 2: "\<forall>a \<in> set cs. fst (accrue epsilon cs (?h, ?acc)) ! a =
             (h ! a)\<lparr>balance := balance (h ! a) + accrued epsilon (h ! a)\<rparr>"
    using IH [OF d(1)] same by simp
  have 3: "snd (accrue epsilon cs (?h, ?acc)) =
             ?acc + sum_list (map (\<lambda>c. accrued epsilon (h ! c)) cs)"
    using IH [OF d(1)] same by (simp cong: map_cong)
  show ?case unfolding step using 1 2 3 hc by simp
qed

subsection \<open>Every write keeps balances and APRs from going negative\<close>

lemma nonneg_set_balance:
  "nonneg h cards \<Longrightarrow> c \<in> set cards \<Longrightarrow> 0 \<le> v \<Longrightarrow> nonneg (set_balance h c v) cards"
  by (auto simp: nonneg_def list_all_iff nth_set_balance)

lemma nonnegD: "nonneg h cards \<Longrightarrow> c \<in> set cards \<Longrightarrow> 0 \<le> balance (h ! c) \<and> 0 \<le> apr (h ! c)"
  by (simp add: nonneg_def list_all_iff)

lemma accrue_nonneg:
  "set cs \<subseteq> set cards \<Longrightarrow> nonneg h cards \<Longrightarrow> nonneg (fst (accrue epsilon cs (h, acc))) cards"
proof (induction cs arbitrary: h acc)
  case Nil
  then show ?case by simp
next
  case (Cons c cs)
  have c: "c \<in> set cards" and cs: "set cs \<subseteq> set cards" using Cons.prems(1) by auto
  have "0 \<le> balance (h ! c) + balance (h ! c) * monthly_rate (apr (h ! c))"
    using nonnegD [OF Cons.prems(2) c] by (simp add: monthly_rate_def)
  then have "nonneg (set_balance h c (balance (h ! c) + balance (h ! c) * monthly_rate (apr (h ! c)))) cards"
    by (rule nonneg_set_balance [OF Cons.prems(2) c])
  then show ?case using Cons.IH [OF cs] Cons.prems(2) by (simp add: Let_def)
qed

lemma pay_in_order_nonneg:
  "set cs \<subseteq> set cards \<Longrightarrow> nonneg h cards \<Longrightarrow> nonneg (fst (pay_in_order epsilon cs (h, r))) cards"
proof (induction cs arbitrary: h r)
  case Nil
  then show ?case by simp
next
  case (Cons c cs)
  have c: "c \<in> set cards" and cs: "set cs \<subseteq> set cards" using Cons.prems(1) by auto
  have "nonneg (set_balance h c (balance (h ! c) - min (balance (h ! c)) r)) cards"
    by (rule nonneg_set_balance [OF Cons.prems(2) c]) simp
  then show ?case using Cons.IH [OF cs] Cons.prems(2) by (simp add: Let_def)
qed

lemma pay_shares_nonneg:
  "set cs \<subseteq> set cards \<Longrightarrow> nonneg h cards \<Longrightarrow> nonneg (fst (pay_shares r t cs h)) cards"
proof (induction cs arbitrary: h)
  case Nil
  then show ?case by simp
next
  case (Cons c cs)
  have c: "c \<in> set cards" and cs: "set cs \<subseteq> set cards" using Cons.prems(1) by auto
  have "nonneg (set_balance h c (balance (h ! c) - min (balance (h ! c)) (r * (balance (h ! c) / t)))) cards"
    by (rule nonneg_set_balance [OF Cons.prems(2) c]) simp
  then show ?case using Cons.IH [OF cs] Cons.prems(2) by (simp add: Let_def)
qed

lemma pay_manual_nonneg:
  "ran d \<subseteq> set cards \<Longrightarrow> nonneg h cards \<Longrightarrow> nonneg (fst (pay_manual epsilon d ps h)) cards"
proof (induction ps arbitrary: h)
  case Nil
  then show ?case by simp
next
  case (Cons p ps)
  obtain nm amt where p: "p = (nm, amt)" by (cases p)
  show ?case
  proof (cases "d nm")
    case None
    then show ?thesis using Cons.prems(2) by (simp add: p)
  next
    case (Some c)
    then have c: "c \<in> set cards" using Cons.prems(1) by (auto simp: ran_def)
    have "nonneg (set_balance h c (balance (h ! c) - min (balance (h ! c)) amt)) cards"
      by (rule nonneg_set_balance [OF Cons.prems(2) c]) simp
    then show ?thesis using Cons.IH [OF Cons.prems(1)] Cons.prems(2) Some by (simp add: p)
  qed
qed

lemma two_pass_nonneg:
  assumes "nonneg h cards"
  shows "nonneg (fst (case pay_in_order epsilon (sort_key (k h) (active_cards epsilon h cards)) (h, budget) of
        (h', remaining) \<Rightarrow>
          if remaining > epsilon
          then (fst (pay_in_order epsilon
                       (sort_key (k h') (active_cards epsilon h' cards)) (h', remaining)),
                Done)
          else (h', Done))) cards"
proof -
  have ord: "set (sort_key (k h') (active_cards epsilon h' cards)) \<subseteq> set cards" for h'
    using set_active_cards by simp
  obtain h' r where w: "pay_in_order epsilon (sort_key (k h) (active_cards epsilon h cards)) (h, budget) = (h', r)"
    by (cases "pay_in_order epsilon (sort_key (k h) (active_cards epsilon h cards)) (h, budget)")
  have 1: "nonneg h' cards"
    using pay_in_order_nonneg [OF ord assms] w by (metis fst_conv)
  have 2: "nonneg (fst (pay_in_order epsilon (sort_key (k h') (active_cards epsilon h' cards)) (h', r))) cards"
    by (rule pay_in_order_nonneg [OF ord 1])
  show ?thesis using 1 2 by (simp add: w)
qed

lemma allocate_nonneg:
  assumes "nonneg h cards"
  shows "nonneg (fst (allocate budget strat epsilon cards h)) cards"
proof (cases strat rule: strategy_cases)
  case avalanche
  show ?thesis unfolding avalanche allocate_avalanche by (rule two_pass_nonneg [OF assms])
next
  case snowball
  show ?thesis unfolding snowball allocate_snowball by (rule two_pass_nonneg [OF assms])
next
  case proportional
  let ?t = "sum_list (map (\<lambda>c. balance (h ! c)) (active_cards epsilon h cards))"
  obtain h' eo where ps: "pay_shares budget ?t (active_cards epsilon h cards) h = (h', eo)"
    by (cases "pay_shares budget ?t (active_cards epsilon h cards) h")
  have "nonneg h' cards"
    using pay_shares_nonneg [OF set_active_cards assms] ps by (metis fst_conv)
  then show ?thesis unfolding proportional allocate_proportional
    using assms by (simp add: ps split: option.splits)
next
  case invalid
  then show ?thesis using assms by (simp add: allocate_invalid)
qed

lemma budget_loop_nonneg:
  "nonneg h cards \<Longrightarrow>
   nonneg (fst (budget_loop cards budget strat max_months epsilon h n t hist)) cards"
proof (induction cards budget strat max_months epsilon h n t hist rule: budget_loop.induct)
  case (1 cards budget strat max_months epsilon h n t hist)
  have acc: "accrue epsilon cards (h, 0) = (h1, mi) \<Longrightarrow> nonneg h1 cards" for h1 mi
    using accrue_nonneg [OF subset_refl "1.prems"] by (metis fst_conv)
  have alloc: "nonneg h1 cards \<Longrightarrow> allocate budget strat epsilon cards h1 = (h2, f) \<Longrightarrow> nonneg h2 cards"
    for h1 h2 f
    using allocate_nonneg by (metis fst_conv)
  show ?case
  proof (cases rule: budget_loop_cases [of epsilon h cards budget strat max_months n t hist])
    case exit
    then show ?thesis using "1.prems" by simp
  next
    case cap
    then show ?thesis using "1.prems" by simp
  next
    case (raise h1 mi h2 e)
    then show ?thesis using alloc [OF acc] by simp
  next
    case (break h1 mi h2)
    then show ?thesis using alloc [OF acc] by simp
  next
    case (continue h1 mi h2)
    have "nonneg h2 cards" using alloc [OF acc] continue by blast
    then show ?thesis
      unfolding continue(5)
      by (rule "1.IH" [OF continue(1) continue(2) continue(3) [symmetric] continue(4) [symmetric] refl])
  qed
qed

lemma manual_loop_nonneg:
  "ran d \<subseteq> set cards \<Longrightarrow> nonneg h cards \<Longrightarrow>
   nonneg (fst (manual_loop cards payments d max_months epsilon h n t hist)) cards"
proof (induction cards payments d max_months epsilon h n t hist rule: manual_loop.induct)
  case (1 cards payments d max_months epsilon h n t hist)
  have acc: "accrue epsilon cards (h, 0) = (h1, mi) \<Longrightarrow> nonneg h1 cards" for h1 mi
    using accrue_nonneg [OF subset_refl "1.prems"(2)] by (metis fst_conv)
  have pay: "nonneg h1 cards \<Longrightarrow> pay_manual epsilon d payments h1 = (h2, f) \<Longrightarrow> nonneg h2 cards"
    for h1 h2 f
    using pay_manual_nonneg [OF "1.prems"(1)] by (metis fst_conv)
  show ?case
  proof (cases rule: manual_loop_cases [of epsilon h cards payments d max_months n t hist])
    case exit
    then show ?thesis using "1.prems" by simp
  next
    case cap
    then show ?thesis using "1.prems" by simp
  next
    case (raise h1 mi h2 e)
    then show ?thesis using pay [OF acc] by simp
  next
    case (continue h1 mi h2)
    have "nonneg h2 cards" using pay [OF acc] continue by blast
    then show ?thesis
      unfolding continue(5)
      by (rule "1.IH" [OF continue(1) continue(2) continue(3) [symmetric] continue(4) [symmetric] refl
                         "1.prems"(1)])
  qed
qed

lemma one_time_payment_nonneg:
  "nonneg h cards \<Longrightarrow> nonneg (fst (apply_one_time_payment h cards nm amount)) cards"
proof (cases "find (\<lambda>c. name (h ! c) = nm) cards")
  case None
  assume "nonneg h cards"
  then show ?thesis using None by (simp add: apply_one_time_payment_def pay_first_match_find)
next
  case (Some c)
  assume n: "nonneg h cards"
  have c: "c \<in> set cards" using Some by (auto simp: find_Some_iff)
  have "nonneg (set_balance h c (max 0 (balance (h ! c) - amount))) cards"
    by (rule nonneg_set_balance [OF n c]) simp
  then show ?thesis using n Some
    by (simp add: apply_one_time_payment_def pay_first_match_find set_balance_def)
qed

lemma deepcopy_nonneg:
  "list_all (\<lambda>c. c < length h) cards \<Longrightarrow> deepcopy h cards = (h0, cards') \<Longrightarrow>
   nonneg h0 cards' = nonneg h cards"
  unfolding nonneg_def by (rule deepcopy_list_all)

lemma total_balance_nonneg: "nonneg h cards \<Longrightarrow> 0 \<le> total_balance h cards"
  by (auto simp: nonneg_def total_balance_def list_all_iff intro!: sum_list_nonneg)

lemma update_values: "list_all (\<lambda>p. P (snd p)) d \<Longrightarrow> P v \<Longrightarrow> list_all (\<lambda>p. P (snd p)) (AList.update k v d)"
  by (induction d) auto

lemma balances_dict_nonneg: "list_all (\<lambda>p. 0 \<le> snd p) (balances_dict h cards)"
proof -
  have "list_all (\<lambda>p. 0 \<le> snd p) d \<Longrightarrow>
        list_all (\<lambda>p. 0 \<le> snd p)
          (foldl (\<lambda>d c. AList.update (name (h ! c)) (max 0 (balance (h ! c))) d) d cs)" for d cs
    by (induction cs arbitrary: d) (simp_all add: update_values)
  from this [of "[]" cards] show ?thesis by (simp add: balances_dict_def)
qed

lemma take_snapshot_nonneg: "nonneg h cards \<Longrightarrow> snapshot_nonneg (take_snapshot h cards n mi t)"
  by (simp add: snapshot_nonneg_def take_snapshot_def total_balance_nonneg balances_dict_nonneg)

lemma budget_loop_history:
  "nonneg h cards \<Longrightarrow> list_all snapshot_nonneg hist \<Longrightarrow>
   history_nonneg (snd (snd (budget_loop cards budget strat max_months epsilon h n t hist)))"
proof (induction cards budget strat max_months epsilon h n t hist rule: budget_loop.induct)
  case (1 cards budget strat max_months epsilon h n t hist)
  have acc: "accrue epsilon cards (h, 0) = (h1, mi) \<Longrightarrow> nonneg h1 cards" for h1 mi
    using accrue_nonneg [OF subset_refl "1.prems"(1)] by (metis fst_conv)
  have alloc: "nonneg h1 cards \<Longrightarrow> allocate budget strat epsilon cards h1 = (h2, f) \<Longrightarrow> nonneg h2 cards"
    for h1 h2 f
    using allocate_nonneg by (metis fst_conv)
  show ?case
  proof (cases rule: budget_loop_cases [of epsilon h cards budget strat max_months n t hist])
    case exit
    then show ?thesis using "1.prems" by (simp add: history_nonneg_def budget_result_def)
  next
    case cap
    then show ?thesis using "1.prems" by (simp add: history_nonneg_def cap_result_def)
  next
    case (raise h1 mi h2 e)
    then show ?thesis by (simp add: history_nonneg_def)
  next
    case (break h1 mi h2)
    then show ?thesis using "1.prems" by (simp add: history_nonneg_def budget_result_def)
  next
    case (continue h1 mi h2)
    have n2: "nonneg h2 cards" using alloc [OF acc] continue by blast
    have "list_all snapshot_nonneg (hist @ [take_snapshot h2 cards (n + 1) mi (t + mi)])"
      using "1.prems"(2) take_snapshot_nonneg [OF n2] by simp
    with n2 show ?thesis
      unfolding continue(5)
      by (rule "1.IH" [OF continue(1) continue(2) continue(3) [symmetric] continue(4) [symmetric] refl])
  qed
qed

lemma manual_loop_history:
  "ran d \<subseteq> set cards \<Longrightarrow> nonneg h cards \<Longrightarrow> list_all snapshot_nonneg hist \<Longrightarrow>
   history_nonneg (snd (snd (manual_loop cards payments d max_months epsilon h n t hist)))"
proof (induction cards payments d max_months epsilon h n t hist rule: manual_loop.induct)
  case (1 cards payments d max_months epsilon h n t hist)
  have acc: "accrue epsilon cards (h, 0) = (h1, mi) \<Longrightarrow> nonneg h1 cards" for h1 mi
    using accrue_nonneg [OF subset_refl "1.prems"(2)] by (metis fst_conv)
  have pay: "nonneg h1 cards \<Longrightarrow> pay_manual epsilon d payments h1 = (h2, f) \<Longrightarrow> nonneg h2 cards"
    for h1 h2 f
    using pay_manual_nonneg [OF "1.prems"(1)] by (metis fst_conv)
  show ?case
  proof (cases rule: manual_loop_cases [of epsilon h cards payments d max_months n t hist])
    case exit
    then show ?thesis using "1.prems" by (simp add: history_nonneg_def manual_result_def)
  next
    case cap
    then show ?thesis using "1.prems" by (simp add: history_nonneg_def cap_result_def)
  next
    case (raise h1 mi h2 e)
    then show ?thesis by (simp add: history_nonneg_def)
  next
    case (continue h1 mi h2)
    have n2: "nonneg h2 cards" using pay [OF acc] continue by blast
    have "list_all snapshot_nonneg (hist @ [take_snapshot h2 cards (n + 1) mi (t + mi)])"
      using "1.prems"(3) take_snapshot_nonneg [OF n2] by simp
    with n2 show ?thesis
      unfolding continue(5)
      by (rule "1.IH" [OF continue(1) continue(2) continue(3) [symmetric] continue(4) [symmetric] refl
                         "1.prems"(1)])
  qed
qed

subsection \<open>Budget left after a walk: every card of the walk is at 0, a second walk pays nothing\<close>

lemma pay_in_order_other: "a \<notin> set cs \<Longrightarrow> fst (pay_in_order epsilon cs (h, r)) ! a = h ! a"
  by (induction cs arbitrary: h r) (auto simp: Let_def nth_set_balance)

lemma pay_in_order_remaining: "0 \<le> r \<Longrightarrow> 0 \<le> snd (pay_in_order epsilon cs (h, r))"
  by (induction cs arbitrary: h r) (auto simp: Let_def)




lemma set_balance_same: "set_balance h c (balance (h ! c)) = h"
  by (simp add: set_balance_def)

lemma pay_in_order_idle:
  "\<forall>c \<in> set cs. min (balance (h ! c)) r = 0 \<Longrightarrow> pay_in_order epsilon cs (h, r) = (h, r)"
  by (induction cs) (simp_all add: Let_def set_balance_same)

lemma pay_in_order_empty_budget:
  "0 \<le> epsilon \<or> (\<forall>c \<in> set cs. 0 \<le> balance (h ! c)) \<Longrightarrow> pay_in_order epsilon cs (h, 0) = (h, 0)"
proof (cases "0 \<le> epsilon")
  case True
  then show ?thesis by (cases cs) simp_all
next
  case False
  assume "0 \<le> epsilon \<or> (\<forall>c \<in> set cs. 0 \<le> balance (h ! c))"
  with False have "\<forall>c \<in> set cs. min (balance (h ! c)) 0 = 0" by auto
  then show ?thesis by (rule pay_in_order_idle)
qed

lemma pay_in_order_spent:
  "0 \<le> epsilon \<or> (\<forall>c \<in> set cs. 0 \<le> balance (h ! c)) \<Longrightarrow> 0 \<le> r \<Longrightarrow>
   pay_in_order epsilon cs (h, r) = (h', r') \<Longrightarrow> epsilon < r' \<Longrightarrow> 0 < r' \<Longrightarrow>
   \<forall>c \<in> set cs. c < length h \<longrightarrow> balance (h' ! c) = 0"
proof (induction cs arbitrary: h r)
  case Nil
  then show ?case by simp
next
  case (Cons c cs)
  let ?b = "balance (h ! c)"
  let ?h1 = "set_balance h c (?b - min ?b r)"
  let ?r1 = "r - min ?b r"
  have big: "epsilon < r" using Cons.prems(3,4) by (auto split: if_splits)
  then have step: "pay_in_order epsilon cs (?h1, ?r1) = (h', r')"
    using Cons.prems(3) by (simp add: Let_def)
  have hyp1: "0 \<le> epsilon \<or> (\<forall>x \<in> set cs. 0 \<le> balance (?h1 ! x))"
    using Cons.prems(1) by (auto simp: nth_set_balance)
  have r1: "0 \<le> ?r1" using Cons.prems(2) by simp
  have IH: "\<forall>x \<in> set cs. x < length h \<longrightarrow> balance (h' ! x) = 0"
    using Cons.IH [OF hyp1 r1 step Cons.prems(4,5)] by simp
  have "balance (h' ! c) = 0" if c: "c < length h" and notin: "c \<notin> set cs"
  proof -
    have "h' ! c = ?h1 ! c" using pay_in_order_other [OF notin, of epsilon ?h1 ?r1] step by simp
    then have bal: "balance (h' ! c) = ?b - min ?b r" using c by (simp add: nth_set_balance)
    show ?thesis
    proof (cases "?b \<le> r")
      case True
      then show ?thesis using bal by simp
    next
      case False
      then have "?r1 = 0" by simp
      then have "pay_in_order epsilon cs (?h1, ?r1) = (?h1, 0)"
        using pay_in_order_empty_budget [OF hyp1] by simp
      then have "r' = 0" using step by simp
      then show ?thesis using Cons.prems(5) by simp
    qed
  qed
  then show ?case using IH by auto
qed

lemma second_pass_idle:
  assumes wf: "\<forall>c \<in> set cards. c < length h"
    and hyp: "0 \<le> epsilon \<or> nonneg h cards"
    and budget: "0 \<le> budget"
    and first: "pay_in_order epsilon (sort_key k (active_cards epsilon h cards)) (h, budget) = (h', r')"
    and left: "epsilon < r'"
  shows "fst (pay_in_order epsilon (sort_key k' (active_cards epsilon h' cards)) (h', r')) = h'"
proof -
  let ?cs = "sort_key k (active_cards epsilon h cards)"
  have sub: "set ?cs \<subseteq> set cards" using set_active_cards by simp
  have r': "0 \<le> r'" using pay_in_order_remaining [OF budget, of epsilon ?cs h] first by simp
  have hyp': "0 \<le> epsilon \<or> (\<forall>c \<in> set ?cs. 0 \<le> balance (h ! c))"
    using hyp sub by (auto dest: nonnegD)
  have "min (balance (h' ! c)) r' = 0" if c: "c \<in> set (active_cards epsilon h' cards)" for c
  proof (cases "r' = 0")
    case True
    then have "epsilon < 0" using left by simp
    then have "nonneg h cards" using hyp by simp
    then have "nonneg h' cards" using pay_in_order_nonneg [OF sub, of h epsilon budget] first by simp
    moreover have "c \<in> set cards" using c set_active_cards by blast
    ultimately show ?thesis using True by (auto dest: nonnegD)
  next
    case False
    then have pos: "0 < r'" using r' by simp
    have cc: "c \<in> set cards" and act: "epsilon < balance (h' ! c)"
      using c by (simp_all add: active_cards_def)
    have "c \<in> set ?cs"
    proof (rule ccontr)
      assume n: "c \<notin> set ?cs"
      then have "h' ! c = h ! c" using pay_in_order_other [OF n, of epsilon h budget] first by simp
      moreover have "\<not> epsilon < balance (h ! c)" using n cc by (simp add: active_cards_def)
      ultimately show False using act by simp
    qed
    moreover have "c < length h" using wf cc by simp
    ultimately have "balance (h' ! c) = 0"
      using pay_in_order_spent [OF hyp' budget first left pos] by simp
    then show ?thesis using pos by simp
  qed
  then have "\<forall>c \<in> set (sort_key k' (active_cards epsilon h' cards)). min (balance (h' ! c)) r' = 0"
    by simp
  then show ?thesis by (simp add: pay_in_order_idle)
qed

lemma allocate_app_eq:
  assumes wf: "\<forall>c \<in> set cards. c < length h"
    and hyp: "0 \<le> epsilon \<or> nonneg h cards"
    and budget: "0 \<le> budget"
  shows "allocate_app budget strat epsilon cards h = allocate budget strat epsilon cards h"
proof (cases strat rule: strategy_cases)
  case avalanche
  obtain h' r' where f: "pay_in_order epsilon (sort_key (avalanche_key h) (active_cards epsilon h cards))
      (h, budget) = (h', r')"
    by (cases "pay_in_order epsilon (sort_key (avalanche_key h) (active_cards epsilon h cards)) (h, budget)")
  show ?thesis unfolding avalanche allocate_avalanche allocate_app_avalanche
    using second_pass_idle [OF wf hyp budget f, where k' = "avalanche_key h'"] by (simp add: f)
next
  case snowball
  obtain h' r' where f: "pay_in_order epsilon (sort_key (snowball_key h) (active_cards epsilon h cards))
      (h, budget) = (h', r')"
    by (cases "pay_in_order epsilon (sort_key (snowball_key h) (active_cards epsilon h cards)) (h, budget)")
  show ?thesis unfolding snowball allocate_snowball allocate_app_snowball
    using second_pass_idle [OF wf hyp budget f, where k' = "snowball_key h'"] by (simp add: f)
next
  case proportional
  show ?thesis unfolding proportional by (rule allocate_app_proportional)
next
  case invalid
  then show ?thesis by (simp add: allocate_invalid allocate_app_invalid)
qed








subsection \<open>Two active cards: the order of the walk and what it pays\<close>

lemma walk_two:
  assumes ab: "a \<noteq> b" and eb: "epsilon < budget"
  shows "fst (pay_in_order epsilon [a, b] (h, budget)) =
     (set_balance
        (set_balance h a (balance (h ! a) - min (balance (h ! a)) budget)) b
        (balance (h ! b) -
           (if budget - min (balance (h ! a)) budget \<le> epsilon then 0
            else min (balance (h ! b)) (budget - min (balance (h ! a)) budget))))"
proof -
  let ?h1 = "set_balance h a (balance (h ! a) - min (balance (h ! a)) budget)"
  have b: "?h1 ! b = h ! b" using ab by (simp add: nth_set_balance)
  have same: "set_balance ?h1 b (balance (h ! b)) = ?h1"
    using set_balance_same [of ?h1 b] b by simp
  show ?thesis using eb by (simp add: Let_def b same)
qed

lemma order_two:
  fixes k :: "addr \<Rightarrow> rat \<times> rat"
  assumes "k a < k b" "cards = [a, b] \<or> cards = [b, a]"
  shows "sort_key k cards = [a, b]"
  using assms by auto

lemma allocate_two:
  assumes ab: "a \<noteq> b" and wf: "a < length h" "b < length h"
    and cards: "cards = [a, b] \<or> cards = [b, a]"
    and eps: "0 \<le> epsilon" "epsilon < budget"
    and act: "epsilon < balance (h ! a)" "epsilon < balance (h ! b)"
  shows "apr (h ! b) < apr (h ! a) \<Longrightarrow>
           allocate budget ''avalanche'' epsilon cards h =
             (fst (pay_in_order epsilon [a, b] (h, budget)), Done)"
    and "balance (h ! b) < balance (h ! a) \<Longrightarrow>
           allocate budget ''snowball'' epsilon cards h =
             (fst (pay_in_order epsilon [b, a] (h, budget)), Done)"
proof -
  have wfc: "\<forall>c \<in> set cards. c < length h" using cards wf by auto
  have hyp: "0 \<le> epsilon \<or> nonneg h cards" using eps by simp
  have b0: "0 \<le> budget" using eps by simp
  have active: "active_cards epsilon h cards = cards"
    using cards act by (auto simp: active_cards_def)
  {
    assume "apr (h ! b) < apr (h ! a)"
    then have "avalanche_key h a < avalanche_key h b" by (simp add: avalanche_key_def)
    then have "sort_key (avalanche_key h) cards = [a, b]" using cards by (rule order_two)
    then show "allocate budget ''avalanche'' epsilon cards h =
             (fst (pay_in_order epsilon [a, b] (h, budget)), Done)"
      using allocate_app_eq [OF wfc hyp b0, of "''avalanche''"]
      by (simp add: allocate_app_avalanche active)
  }
  {
    assume "balance (h ! b) < balance (h ! a)"
    then have "snowball_key h b < snowball_key h a" by (simp add: snowball_key_def)
    then have "sort_key (snowball_key h) cards = [b, a]" using cards order_two [of _ b a cards] by blast
    then show "allocate budget ''snowball'' epsilon cards h =
             (fst (pay_in_order epsilon [b, a] (h, budget)), Done)"
      using allocate_app_eq [OF wfc hyp b0, of "''snowball''"]
      by (simp add: allocate_app_snowball active)
  }
qed

lemma accrue_equal_balances:
  assumes ab: "a \<noteq> b" and wf: "a < length h" "b < length h"
    and cards: "cards = [a, b] \<or> cards = [b, a]"
    and eps: "0 \<le> epsilon" "epsilon < balance (h ! a)"
    and eq: "balance (h ! a) = balance (h ! b)"
    and apr: "0 \<le> apr (h ! b)" "apr (h ! b) < apr (h ! a)"
  shows "apr (fst (accrue epsilon cards (h, acc)) ! b) < apr (fst (accrue epsilon cards (h, acc)) ! a) \<and>
         balance (fst (accrue epsilon cards (h, acc)) ! b) <
           balance (fst (accrue epsilon cards (h, acc)) ! a) \<and>
         epsilon < balance (fst (accrue epsilon cards (h, acc)) ! b)"
proof -
  have d: "distinct cards" and l: "\<forall>c \<in> set cards. c < length h" and m: "a \<in> set cards" "b \<in> set cards"
    using ab wf cards by auto
  note r = accrue_distinct [OF d l, of epsilon acc, THEN conjunct1, rule_format]
  have pos: "0 < balance (h ! b)" using eps eq by simp
  have "balance (h ! b) * monthly_rate (apr (h ! b)) < balance (h ! b) * monthly_rate (apr (h ! a))"
    using pos apr by (simp add: monthly_rate_def)
  moreover have "0 \<le> balance (h ! b) * monthly_rate (apr (h ! b))"
    using pos apr by (simp add: monthly_rate_def)
  ultimately show ?thesis using r [OF m(1)] r [OF m(2)] eps eq apr by (simp add: accrued_def)
qed

subsection \<open>The proportional pass, card by card\<close>












subsection \<open>Evaluating a simulation on a concrete input\<close>

lemmas eval_defs = simulate_payoff_total_budget_def simulate_payoff_manual_payments_def
  deepcopy_def budget_loop.simps manual_loop.simps name_to_card_def
  total_balance_def set_balance_def monthly_rate_def allocate_def active_cards_def
  avalanche_key_def snowball_key_def take_snapshot_def balances_dict_def
  budget_result_def manual_result_def cap_result_def

section \<open>Lemmas on the engine in double precision\<close>


subsection \<open>Evaluating the rounding on numerals\<close>

lemma floor_rat_numeral [simp]:
  "\<lfloor>numeral a / numeral b :: rat\<rfloor> = numeral a div numeral b"
  by (metis floor_divide_of_int_eq of_int_numeral)

lemma floor_rat_neg_numeral [simp]:
  "\<lfloor>- (numeral a / numeral b) :: rat\<rfloor> = - numeral a div numeral b"
  by (metis divide_minus_left floor_divide_of_int_eq of_int_neg_numeral of_int_numeral)



subsection \<open>The engine in double precision: with no rounding it is the exact engine\<close>
















subsection \<open>The engine in double precision: the second pass pays nothing\<close>





















subsection \<open>The engine in double precision: the proportional pass, card by card\<close>





section \<open>Simulations work on a private copy\<close>

text \<open>
  Claim C2. Whatever a simulation returns or raises, the heap it leaves agrees with the
  caller's heap on every object that existed before the call: the cards the caller can
  see keep their name, balance and APR, for both implementations of the budget-based
  simulation and for the manual one. \<^verbatim>\<open>apply_one_time_payment\<close> is the operation that
  writes to the caller's objects: a positive payment to a card with a positive balance
  lowers the balance stored at the caller's own address.
\<close>

theorem simulations_leave_caller_cards:
  "take (length h) (fst (simulate_payoff_total_budget h cards budget strat max_months epsilon)) = h \<and>
   take (length h) (fst (simulate_payoff_total_budget_app h cards budget strat max_months epsilon)) = h \<and>
   take (length h) (fst (simulate_payoff_manual_payments h cards payments max_months epsilon)) = h \<and>
   (0 < amount \<and> find (\<lambda>c. name (h ! c) = nm) cards = Some c \<and> c < length h \<and> 0 < balance (h ! c) \<longrightarrow>
      length (fst (apply_one_time_payment h cards nm amount)) = length h \<and>
      balance (fst (apply_one_time_payment h cards nm amount) ! c) < balance (h ! c))"
proof (intro conjI impI)
  show "take (length h) (fst (simulate_payoff_total_budget h cards budget strat max_months epsilon)) = h"
    by (rule simulate_payoff_total_budget_frame)
  show "take (length h) (fst (simulate_payoff_total_budget_app h cards budget strat max_months epsilon)) = h"
    by (rule simulate_payoff_total_budget_app_frame)
  show "take (length h) (fst (simulate_payoff_manual_payments h cards payments max_months epsilon)) = h"
    by (rule simulate_payoff_manual_payments_frame)
next
  assume "0 < amount \<and> find (\<lambda>c. name (h ! c) = nm) cards = Some c \<and> c < length h \<and> 0 < balance (h ! c)"
  then show "length (fst (apply_one_time_payment h cards nm amount)) = length h"
    and "balance (fst (apply_one_time_payment h cards nm amount) ! c) < balance (h ! c)"
    by (simp_all add: apply_one_time_payment_def pay_first_match_find)
qed

theorem simulations_leave_caller_cards_witness:
  "take 1 (fst (simulate_payoff_total_budget [\<lparr>name = ''A'', balance = 100, apr = 20\<rparr>] [0]
                  50 ''avalanche'' 2000 (1 / 1000000))) =
     [\<lparr>name = ''A'', balance = 100, apr = 20\<rparr>] \<and>
   take 1 (fst (simulate_payoff_manual_payments [\<lparr>name = ''A'', balance = 100, apr = 20\<rparr>] [0]
                  [(''A'', 50)] 2000 (1 / 1000000))) =
     [\<lparr>name = ''A'', balance = 100, apr = 20\<rparr>] \<and>
   balance (fst (apply_one_time_payment [\<lparr>name = ''A'', balance = 100, apr = 20\<rparr>] [0] ''A'' 30) ! 0)
     < 100"
  using simulations_leave_caller_cards
          [of "[\<lparr>name = ''A'', balance = 100, apr = 20\<rparr>]" "[0]" 50 "''avalanche''" 2000
              "1 / 1000000" "[(''A'', 50)]" 30 "''A''" 0]
  by simp

section \<open>The month cap\<close>

lemma within_cap_mono:
  "within_cap (n + 1) max_months why x \<Longrightarrow> \<not> max_months < n + 1 \<Longrightarrow> within_cap n max_months why x"
  by (cases x) (auto simp: within_cap_def max_def split: sum.splits if_splits)

lemma budget_loop_within_cap:
  "within_cap n max_months ''Hit max_months (budget may be too low).''
     (snd (budget_loop cards budget strat max_months epsilon h n t hist))"
proof (induction cards budget strat max_months epsilon h n t hist rule: budget_loop.induct)
  case (1 cards budget strat max_months epsilon h n t hist)
  show ?case
  proof (cases rule: budget_loop_cases [of epsilon h cards budget strat max_months n t hist])
    case exit
    then show ?thesis by (simp add: within_cap_def budget_result_def)
  next
    case cap
    then show ?thesis by (simp add: within_cap_def cap_result_def max_def)
  next
    case (raise h1 mi h2 e)
    then show ?thesis by (simp add: within_cap_def max_def)
  next
    case (break h1 mi h2)
    then show ?thesis by (simp add: within_cap_def budget_result_def max_def)
  next
    case (continue h1 mi h2)
    show ?thesis
      unfolding continue(5)
      by (rule within_cap_mono [OF _ continue(2)])
         (rule "1.IH" [OF continue(1) continue(2) continue(3) [symmetric] continue(4) [symmetric] refl])
  qed
qed

lemma manual_loop_within_cap:
  "within_cap n max_months ''Hit max_months (payments may be too low).''
     (snd (manual_loop cards payments d max_months epsilon h n t hist))"
proof (induction cards payments d max_months epsilon h n t hist rule: manual_loop.induct)
  case (1 cards payments d max_months epsilon h n t hist)
  show ?case
  proof (cases rule: manual_loop_cases [of epsilon h cards payments d max_months n t hist])
    case exit
    then show ?thesis by (simp add: within_cap_def manual_result_def)
  next
    case cap
    then show ?thesis by (simp add: within_cap_def cap_result_def max_def)
  next
    case (raise h1 mi h2 e)
    then show ?thesis by (simp add: within_cap_def max_def)
  next
    case (continue h1 mi h2)
    show ?thesis
      unfolding continue(5)
      by (rule within_cap_mono [OF _ continue(2)])
         (rule "1.IH" [OF continue(1) continue(2) continue(3) [symmetric] continue(4) [symmetric] refl])
  qed
qed

lemma simulated_months_loop:
  "simulated_months k cards budget strat epsilon h n t hist = Some (h', n', t', hist') \<Longrightarrow>
   n + int k \<le> max_months \<Longrightarrow>
   n' = n + int k \<and>
   budget_loop cards budget strat max_months epsilon h n t hist =
     budget_loop cards budget strat max_months epsilon h' n' t' hist'"
proof (induction k arbitrary: h n t hist)
  case 0
  then show ?case by simp
next
  case (Suc k)
  from Suc.prems(1) have big: "epsilon < total_balance h cards" by (simp split: if_splits)
  obtain h1 mi where a: "accrue epsilon cards (h, 0) = (h1, mi)"
    by (cases "accrue epsilon cards (h, 0)")
  obtain h2 f where b: "allocate budget strat epsilon cards h1 = (h2, f)"
    by (cases "allocate budget strat epsilon cards h1")
  from Suc.prems(1) big a b have f: "f = Done" by (cases f) simp_all
  have rest: "simulated_months k cards budget strat epsilon h2 (n + 1) (t + mi)
                (hist @ [take_snapshot h2 cards (n + 1) mi (t + mi)]) = Some (h', n', t', hist')"
    using Suc.prems(1) big a b f by simp
  have cap: "n + 1 + int k \<le> max_months" using Suc.prems(2) by simp
  have step: "budget_loop cards budget strat max_months epsilon h n t hist =
              budget_loop cards budget strat max_months epsilon h2 (n + 1) (t + mi)
                (hist @ [take_snapshot h2 cards (n + 1) mi (t + mi)])"
    using big cap a b f by (simp add: budget_loop.simps [of cards budget strat max_months epsilon h])
  show ?case using Suc.IH [OF rest cap] step by simp
qed

lemma simulated_months_manual_loop:
  "simulated_months_manual k cards payments d epsilon h n t hist = Some (h', n', t', hist') \<Longrightarrow>
   n + int k \<le> max_months \<Longrightarrow>
   n' = n + int k \<and>
   manual_loop cards payments d max_months epsilon h n t hist =
     manual_loop cards payments d max_months epsilon h' n' t' hist'"
proof (induction k arbitrary: h n t hist)
  case 0
  then show ?case by simp
next
  case (Suc k)
  from Suc.prems(1) have big: "epsilon < total_balance h cards" by (simp split: if_splits)
  obtain h1 mi where a: "accrue epsilon cards (h, 0) = (h1, mi)"
    by (cases "accrue epsilon cards (h, 0)")
  obtain h2 f where b: "pay_manual epsilon d payments h1 = (h2, f)"
    by (cases "pay_manual epsilon d payments h1")
  from Suc.prems(1) big a b have f: "f = None" by (cases f) simp_all
  have rest: "simulated_months_manual k cards payments d epsilon h2 (n + 1) (t + mi)
                (hist @ [take_snapshot h2 cards (n + 1) mi (t + mi)]) = Some (h', n', t', hist')"
    using Suc.prems(1) big a b f by simp
  have cap: "n + 1 + int k \<le> max_months" using Suc.prems(2) by simp
  have step: "manual_loop cards payments d max_months epsilon h n t hist =
              manual_loop cards payments d max_months epsilon h2 (n + 1) (t + mi)
                (hist @ [take_snapshot h2 cards (n + 1) mi (t + mi)])"
    using big cap a b f by (simp add: manual_loop.simps [of cards payments d max_months epsilon h])
  show ?case using Suc.IH [OF rest cap] step by simp
qed

lemma budget_loop_cap_reached:
  assumes "0 \<le> max_months"
    and "simulated_months (nat max_months) cards budget strat epsilon h 0 0 [] = Some (h', n', t', hist')"
    and "epsilon < total_balance h' cards"
  shows "budget_loop cards budget strat max_months epsilon h 0 0 [] =
         (h', max_months + 1,
          Inr (cap_result (max_months + 1) t' ''Hit max_months (budget may be too low).'' (Some hist')))"
proof -
  have "n' = max_months \<and>
        budget_loop cards budget strat max_months epsilon h 0 0 [] =
          budget_loop cards budget strat max_months epsilon h' n' t' hist'"
    using simulated_months_loop [OF assms(2), of max_months] assms(1) by simp
  then show ?thesis
    using assms(3) by (simp add: budget_loop.simps [of cards budget strat max_months epsilon h'])
qed

lemma manual_loop_cap_reached:
  assumes "0 \<le> max_months"
    and "simulated_months_manual (nat max_months) cards payments d epsilon h 0 0 [] =
           Some (h', n', t', hist')"
    and "epsilon < total_balance h' cards"
  shows "manual_loop cards payments d max_months epsilon h 0 0 [] =
         (h', max_months + 1,
          Inr (cap_result (max_months + 1) t' ''Hit max_months (payments may be too low).'' (Some hist')))"
proof -
  have "n' = max_months \<and>
        manual_loop cards payments d max_months epsilon h 0 0 [] =
          manual_loop cards payments d max_months epsilon h' n' t' hist'"
    using simulated_months_manual_loop [OF assms(2), of max_months] assms(1) by simp
  then show ?thesis
    using assms(3) by (simp add: manual_loop.simps [of cards payments d max_months epsilon h'])
qed

text \<open>
  Claim C3, amended. Both loops are total functions: the termination proofs above use the
  measure \<open>max_months - months\<close>. The counter \<^verbatim>\<open>months\<close> counts the iterations entered,
  and a loop started at 0 leaves it at most at \<open>max max_months 0 + 1\<close>, which is
  \<open>max_months + 1\<close> for a cap that is not negative. When \<open>max_months\<close> months have been
  simulated in full from the start of the call (\<open>simulated_months\<close>: each month found the
  total above \<^verbatim>\<open>epsilon\<close>, accrued interest and allocated the payments, with no error and
  without the proportional branch breaking out of the loop) and the total balance is still
  above \<^verbatim>\<open>epsilon\<close>, the call returns a result with \<^verbatim>\<open>paid_off = False\<close>, the reason and
  \<^verbatim>\<open>months = max_months + 1\<close>, and the balances, the interest total and the history are
  those left by month \<open>max_months\<close>: the last iteration accrues and allocates nothing. The
  same holds of one iteration entered with the counter at \<open>max_months\<close> in any state. Every
  returned result that is not paid off has \<^verbatim>\<open>months\<close> equal to \<open>max max_months 0 + 1\<close> and
  carries the reason; every paid-off result has \<^verbatim>\<open>months\<close> at most \<open>max max_months 0\<close>.
\<close>

theorem month_cap_bounds_loop:
  "fst (snd (budget_loop cards budget strat max_months epsilon h 0 0 [])) \<le> max max_months 0 + 1 \<and>
   fst (snd (manual_loop cards payments d max_months epsilon h 0 0 [])) \<le> max max_months 0 + 1 \<and>
   (0 < budget \<and> 0 \<le> max_months \<and>
    simulated_months (nat max_months) (snd (deepcopy h cards)) budget strat epsilon
      (fst (deepcopy h cards)) 0 0 [] = Some (h', n', t', hist') \<and>
    epsilon < total_balance h' (snd (deepcopy h cards)) \<longrightarrow>
      simulate_payoff_total_budget h cards budget strat max_months epsilon =
        (h', Inr \<lparr>paid_off = False, months = max_months + 1, total_interest = t',
                   reason = Some ''Hit max_months (budget may be too low).'', monthly_budget = None,
                   strategy = None, monthly_payments = None, history = Some hist'\<rparr>)) \<and>
   (\<not> list_ex (\<lambda>(k, v). v < 0) payments \<and> 0 \<le> max_months \<and>
    simulated_months_manual (nat max_months) (snd (deepcopy h cards)) payments
      (name_to_card (fst (deepcopy h cards)) (snd (deepcopy h cards))) epsilon
      (fst (deepcopy h cards)) 0 0 [] = Some (h', n', t', hist') \<and>
    epsilon < total_balance h' (snd (deepcopy h cards)) \<longrightarrow>
      simulate_payoff_manual_payments h cards payments max_months epsilon =
        (h', Inr \<lparr>paid_off = False, months = max_months + 1, total_interest = t',
                   reason = Some ''Hit max_months (payments may be too low).'', monthly_budget = None,
                   strategy = None, monthly_payments = None, history = Some hist'\<rparr>)) \<and>
   (epsilon < total_balance h cards \<longrightarrow>
      budget_loop cards budget strat max_months epsilon h max_months t hist =
        (h, max_months + 1,
         Inr \<lparr>paid_off = False, months = max_months + 1, total_interest = t,
               reason = Some ''Hit max_months (budget may be too low).'', monthly_budget = None,
               strategy = None, monthly_payments = None, history = Some hist\<rparr>) \<and>
      manual_loop cards payments d max_months epsilon h max_months t hist =
        (h, max_months + 1,
         Inr \<lparr>paid_off = False, months = max_months + 1, total_interest = t,
               reason = Some ''Hit max_months (payments may be too low).'', monthly_budget = None,
               strategy = None, monthly_payments = None, history = Some hist\<rparr>)) \<and>
   (snd (simulate_payoff_total_budget h cards budget strat max_months epsilon) = Inr r \<longrightarrow>
      (if paid_off r then months r \<le> max max_months 0
       else months r = max max_months 0 + 1 \<and>
            reason r = Some ''Hit max_months (budget may be too low).'')) \<and>
   (snd (simulate_payoff_manual_payments h cards payments max_months epsilon) = Inr r \<longrightarrow>
      (if paid_off r then months r \<le> max max_months 0
       else months r = max max_months 0 + 1 \<and>
            reason r = Some ''Hit max_months (payments may be too low).''))"
proof (intro conjI impI)
  show "fst (snd (budget_loop cards budget strat max_months epsilon h 0 0 [])) \<le> max max_months 0 + 1"
    using budget_loop_within_cap [of 0 max_months cards budget strat epsilon h 0 "[]"]
    by (auto simp: within_cap_def max.commute split: prod.splits)
  show "fst (snd (manual_loop cards payments d max_months epsilon h 0 0 [])) \<le> max max_months 0 + 1"
    using manual_loop_within_cap [of 0 max_months cards payments d epsilon h 0 "[]"]
    by (auto simp: within_cap_def max.commute split: prod.splits)
next
  assume a: "0 < budget \<and> 0 \<le> max_months \<and>
    simulated_months (nat max_months) (snd (deepcopy h cards)) budget strat epsilon
      (fst (deepcopy h cards)) 0 0 [] = Some (h', n', t', hist') \<and>
    epsilon < total_balance h' (snd (deepcopy h cards))"
  obtain h0 cards' where d: "deepcopy h cards = (h0, cards')" by (cases "deepcopy h cards")
  have "budget_loop cards' budget strat max_months epsilon h0 0 0 [] =
         (h', max_months + 1,
          Inr (cap_result (max_months + 1) t' ''Hit max_months (budget may be too low).'' (Some hist')))"
    using a by (intro budget_loop_cap_reached [where n' = n']) (simp_all add: d)
  then show "simulate_payoff_total_budget h cards budget strat max_months epsilon =
        (h', Inr \<lparr>paid_off = False, months = max_months + 1, total_interest = t',
                   reason = Some ''Hit max_months (budget may be too low).'', monthly_budget = None,
                   strategy = None, monthly_payments = None, history = Some hist'\<rparr>)"
    using a by (simp add: simulate_payoff_total_budget_def d cap_result_def)
next
  assume a: "\<not> list_ex (\<lambda>(k, v). v < 0) payments \<and> 0 \<le> max_months \<and>
    simulated_months_manual (nat max_months) (snd (deepcopy h cards)) payments
      (name_to_card (fst (deepcopy h cards)) (snd (deepcopy h cards))) epsilon
      (fst (deepcopy h cards)) 0 0 [] = Some (h', n', t', hist') \<and>
    epsilon < total_balance h' (snd (deepcopy h cards))"
  obtain h0 cards' where d: "deepcopy h cards = (h0, cards')" by (cases "deepcopy h cards")
  have "manual_loop cards' payments (name_to_card h0 cards') max_months epsilon h0 0 0 [] =
         (h', max_months + 1,
          Inr (cap_result (max_months + 1) t' ''Hit max_months (payments may be too low).'' (Some hist')))"
    using a by (intro manual_loop_cap_reached [where n' = n']) (simp_all add: d)
  then show "simulate_payoff_manual_payments h cards payments max_months epsilon =
        (h', Inr \<lparr>paid_off = False, months = max_months + 1, total_interest = t',
                   reason = Some ''Hit max_months (payments may be too low).'', monthly_budget = None,
                   strategy = None, monthly_payments = None, history = Some hist'\<rparr>)"
    using a by (simp add: simulate_payoff_manual_payments_def d cap_result_def)
next
  assume big: "epsilon < total_balance h cards"
  show "budget_loop cards budget strat max_months epsilon h max_months t hist =
        (h, max_months + 1,
         Inr \<lparr>paid_off = False, months = max_months + 1, total_interest = t,
               reason = Some ''Hit max_months (budget may be too low).'', monthly_budget = None,
               strategy = None, monthly_payments = None, history = Some hist\<rparr>)"
    using big by (simp add: budget_loop.simps [of cards budget strat max_months epsilon h] cap_result_def)
  show "manual_loop cards payments d max_months epsilon h max_months t hist =
        (h, max_months + 1,
         Inr \<lparr>paid_off = False, months = max_months + 1, total_interest = t,
               reason = Some ''Hit max_months (payments may be too low).'', monthly_budget = None,
               strategy = None, monthly_payments = None, history = Some hist\<rparr>)"
    using big by (simp add: manual_loop.simps [of cards payments d max_months epsilon h] cap_result_def)
next
  assume r: "snd (simulate_payoff_total_budget h cards budget strat max_months epsilon) = Inr r"
  obtain h0 cards' where d: "deepcopy h cards = (h0, cards')" by (cases "deepcopy h cards")
  obtain h1 n1 out where l: "budget_loop cards' budget strat max_months epsilon h0 0 0 [] = (h1, n1, out)"
    by (cases "budget_loop cards' budget strat max_months epsilon h0 0 0 []")
  have "out = Inr r" using r by (simp add: simulate_payoff_total_budget_def d l split: if_splits)
  then show "if paid_off r then months r \<le> max max_months 0
       else months r = max max_months 0 + 1 \<and>
            reason r = Some ''Hit max_months (budget may be too low).''"
    using budget_loop_within_cap [of 0 max_months cards' budget strat epsilon h0 0 "[]"]
    by (auto simp: within_cap_def l max.commute split: if_splits)
next
  assume r: "snd (simulate_payoff_manual_payments h cards payments max_months epsilon) = Inr r"
  obtain h0 cards' where d: "deepcopy h cards = (h0, cards')" by (cases "deepcopy h cards")
  obtain h1 n1 out where l: "manual_loop cards' payments (name_to_card h0 cards') max_months epsilon
      h0 0 0 [] = (h1, n1, out)"
    by (cases "manual_loop cards' payments (name_to_card h0 cards') max_months epsilon h0 0 0 []")
  have "out = Inr r" using r by (simp add: simulate_payoff_manual_payments_def d l split: if_splits)
  then show "if paid_off r then months r \<le> max max_months 0
       else months r = max max_months 0 + 1 \<and>
            reason r = Some ''Hit max_months (payments may be too low).''"
    using manual_loop_within_cap [of 0 max_months cards' payments "name_to_card h0 cards'" epsilon h0 0 "[]"]
    by (auto simp: within_cap_def l max.commute split: if_splits)
qed

theorem month_cap_bounds_loop_witness:
  "simulate_payoff_total_budget [\<lparr>name = ''A'', balance = 100, apr = 12\<rparr>] [0] (1 / 2)
       ''avalanche'' 1 (1 / 1000000) =
     ([\<lparr>name = ''A'', balance = 100, apr = 12\<rparr>, \<lparr>name = ''A'', balance = 201 / 2, apr = 12\<rparr>],
      Inr \<lparr>paid_off = False, months = 1 + 1, total_interest = 1,
            reason = Some ''Hit max_months (budget may be too low).'', monthly_budget = None,
            strategy = None, monthly_payments = None,
            history = Some [\<lparr>month = 1, interest = 1, total_interest_to_date = 1,
                             balances = [(''A'', 201 / 2)], snapshot_total_balance = 201 / 2\<rparr>]\<rparr>) \<and>
   simulate_payoff_manual_payments [\<lparr>name = ''A'', balance = 100, apr = 12\<rparr>] [0]
       [(''A'', 1 / 2)] 1 (1 / 1000000) =
     ([\<lparr>name = ''A'', balance = 100, apr = 12\<rparr>, \<lparr>name = ''A'', balance = 201 / 2, apr = 12\<rparr>],
      Inr \<lparr>paid_off = False, months = 1 + 1, total_interest = 1,
            reason = Some ''Hit max_months (payments may be too low).'', monthly_budget = None,
            strategy = None, monthly_payments = None,
            history = Some [\<lparr>month = 1, interest = 1, total_interest_to_date = 1,
                             balances = [(''A'', 201 / 2)], snapshot_total_balance = 201 / 2\<rparr>]\<rparr>) \<and>
   budget_loop [0] (1 / 2) ''avalanche'' 1 (1 / 1000000)
       [\<lparr>name = ''A'', balance = 201 / 2, apr = 12\<rparr>] 1 1 [] =
     ([\<lparr>name = ''A'', balance = 201 / 2, apr = 12\<rparr>], 1 + 1,
      Inr \<lparr>paid_off = False, months = 1 + 1, total_interest = 1,
            reason = Some ''Hit max_months (budget may be too low).'', monthly_budget = None,
            strategy = None, monthly_payments = None, history = Some []\<rparr>)"
  using month_cap_bounds_loop
          [where cards = "[0]" and budget = "1 / 2" and strat = "''avalanche''" and max_months = 1
             and epsilon = "1 / 1000000" and h = "[\<lparr>name = ''A'', balance = 100, apr = 12\<rparr>]"
             and payments = "[(''A'', 1 / 2)]" and d = "Map.empty" and t = 1 and hist = "[]"
             and h' = "[\<lparr>name = ''A'', balance = 100, apr = 12\<rparr>,
                        \<lparr>name = ''A'', balance = 201 / 2, apr = 12\<rparr>]"
             and n' = 1 and t' = 1
             and hist' = "[\<lparr>month = 1, interest = 1, total_interest_to_date = 1,
                            balances = [(''A'', 201 / 2)], snapshot_total_balance = 201 / 2\<rparr>]"]
        month_cap_bounds_loop
          [where cards = "[0]" and budget = "1 / 2" and strat = "''avalanche''" and max_months = 1
             and epsilon = "1 / 1000000" and h = "[\<lparr>name = ''A'', balance = 201 / 2, apr = 12\<rparr>]"
             and t = 1 and hist = "[]"]
  by (simp add: deepcopy_def name_to_card_def total_balance_def set_balance_def monthly_rate_def
        allocate_def active_cards_def avalanche_key_def take_snapshot_def balances_dict_def)

text \<open>
  The claim as it is written fails in two ways. For a negative cap: with
  \<^verbatim>\<open>max_months = -1\<close> and a balance above \<^verbatim>\<open>epsilon\<close> the loop is entered once, and the
  result has \<^verbatim>\<open>months = 1\<close>, which is neither at most nor equal to \<^verbatim>\<open>max_months + 1 = 0\<close>.
  For the proportional strategy: two cards of 0.0000006 each, \<^verbatim>\<open>max_months = 1\<close>; the
  total is above \<^verbatim>\<open>epsilon\<close>, no card is active, the first month breaks out of the loop, and
  the call returns \<^verbatim>\<open>paid_off = True\<close> with \<^verbatim>\<open>months = 1\<close> while the total balance of its
  copies is still above \<^verbatim>\<open>epsilon\<close>.
\<close>

theorem month_cap_counterexample:
  "snd (simulate_payoff_total_budget [\<lparr>name = ''A'', balance = 100, apr = 12\<rparr>] [0] 10
          ''avalanche'' (- 1) (1 / 1000000)) =
     Inr (cap_result 1 0 ''Hit max_months (budget may be too low).'' (Some [])) \<and>
   months (cap_result 1 0 ''Hit max_months (budget may be too low).'' (Some [])) \<noteq> - 1 + 1 \<and>
   \<not> fst (snd (budget_loop [1] 10 ''avalanche'' (- 1) (1 / 1000000)
                  [\<lparr>name = ''A'', balance = 100, apr = 12\<rparr>,
                   \<lparr>name = ''A'', balance = 100, apr = 12\<rparr>] 0 0 [])) \<le> - 1 + 1 \<and>
   simulate_payoff_total_budget
       [\<lparr>name = ''A'', balance = 3 / 5000000, apr = 12\<rparr>,
        \<lparr>name = ''B'', balance = 3 / 5000000, apr = 24\<rparr>] [0, 1] 100 ''proportional'' 1
       (1 / 1000000) =
     ([\<lparr>name = ''A'', balance = 3 / 5000000, apr = 12\<rparr>,
       \<lparr>name = ''B'', balance = 3 / 5000000, apr = 24\<rparr>,
       \<lparr>name = ''A'', balance = 3 / 5000000, apr = 12\<rparr>,
       \<lparr>name = ''B'', balance = 3 / 5000000, apr = 24\<rparr>],
      Inr (budget_result 1 0 100 ''proportional'' [])) \<and>
   paid_off (budget_result 1 0 100 ''proportional'' []) \<and>
   months (budget_result 1 0 100 ''proportional'' []) \<noteq> 1 + 1 \<and>
   1 / 1000000 <
     total_balance
       [\<lparr>name = ''A'', balance = 3 / 5000000, apr = 12\<rparr>,
        \<lparr>name = ''B'', balance = 3 / 5000000, apr = 24\<rparr>,
        \<lparr>name = ''A'', balance = 3 / 5000000, apr = 12\<rparr>,
        \<lparr>name = ''B'', balance = 3 / 5000000, apr = 24\<rparr>] [2, 3]"
  by (simp add: eval_defs)

section \<open>Invalid arguments\<close>

text \<open>
  A budget that is not positive raises \<^verbatim>\<open>ValueError\<close> before anything else happens: the
  heap is untouched, no copy is made. The strategy is checked by the last branch of the
  monthly dispatch, inside the loop, after the accrual of the month. So with a positive
  budget an unrecognised strategy raises \<^verbatim>\<open>ValueError\<close> only if the first month is entered,
  that is when the total balance is above \<^verbatim>\<open>epsilon\<close> and \<^verbatim>\<open>max_months\<close> is at least 1;
  in every other case the call returns a result.
\<close>

lemma unknown_strategy_outcome:
  "(budget \<le> 0 \<longrightarrow>
      simulate_payoff_total_budget h cards budget strat max_months epsilon = (h, Inl ValueError)) \<and>
   (0 < budget \<and> strat \<noteq> ''avalanche'' \<and> strat \<noteq> ''snowball'' \<and> strat \<noteq> ''proportional'' \<and>
    list_all (\<lambda>c. c < length h) cards \<longrightarrow>
      simulate_payoff_total_budget h cards budget strat max_months epsilon =
        (if epsilon < total_balance h cards
         then if max_months < 1
              then (fst (deepcopy h cards),
                    Inr (cap_result 1 0 ''Hit max_months (budget may be too low).'' (Some [])))
              else (fst (accrue epsilon (snd (deepcopy h cards)) (fst (deepcopy h cards), 0)),
                    Inl ValueError)
         else (fst (deepcopy h cards), Inr (budget_result 0 0 budget strat []))))"
proof (intro conjI impI)
  assume "budget \<le> 0"
  then show "simulate_payoff_total_budget h cards budget strat max_months epsilon = (h, Inl ValueError)"
    by (simp add: simulate_payoff_total_budget_def)
next
  assume a: "0 < budget \<and> strat \<noteq> ''avalanche'' \<and> strat \<noteq> ''snowball'' \<and> strat \<noteq> ''proportional'' \<and>
    list_all (\<lambda>c. c < length h) cards"
  obtain h0 cards' where d: "deepcopy h cards = (h0, cards')" by (cases "deepcopy h cards")
  have tb: "total_balance h0 cards' = total_balance h cards"
    using deepcopy_total_balance [OF _ d] a by simp
  obtain h1 mi where ac: "accrue epsilon cards' (h0, 0) = (h1, mi)"
    by (cases "accrue epsilon cards' (h0, 0)")
  have al: "allocate budget strat epsilon cards' h1 = (h1, Raised ValueError)"
    using a by (simp add: allocate_invalid)
  show "simulate_payoff_total_budget h cards budget strat max_months epsilon =
        (if epsilon < total_balance h cards
         then if max_months < 1
              then (fst (deepcopy h cards),
                    Inr (cap_result 1 0 ''Hit max_months (budget may be too low).'' (Some [])))
              else (fst (accrue epsilon (snd (deepcopy h cards)) (fst (deepcopy h cards), 0)),
                    Inl ValueError)
         else (fst (deepcopy h cards), Inr (budget_result 0 0 budget strat [])))"
    using a tb
    by (simp add: simulate_payoff_total_budget_def d ac al
          budget_loop.simps [of cards' budget strat max_months epsilon h0])
qed

text \<open>
  Claim C4, a defect of the code. The function rejects an unrecognised strategy with
  \<^verbatim>\<open>ValueError\<close>, as it rejects a budget that is not positive, but the check of the
  strategy is reached only when a month is simulated. For a card that owes nothing, the
  call with the strategy \<^verbatim>\<open>fastest\<close> raises nothing: it returns \<^verbatim>\<open>paid_off = True\<close> with
  \<^verbatim>\<open>months = 0\<close> and echoes the strategy. For a card that owes 100 and \<^verbatim>\<open>max_months = 0\<close>
  it returns the result of the month cap. The same card with the default cap raises
  \<^verbatim>\<open>ValueError\<close>, and so does a budget of 0 with a valid strategy.
\<close>

theorem unknown_strategy_accepted:
  "simulate_payoff_total_budget [\<lparr>name = ''A'', balance = 0, apr = 12\<rparr>] [0] 50 ''fastest''
     2000 (1 / 1000000) =
     ([\<lparr>name = ''A'', balance = 0, apr = 12\<rparr>, \<lparr>name = ''A'', balance = 0, apr = 12\<rparr>],
      Inr \<lparr>paid_off = True, months = 0, total_interest = 0, reason = None,
            monthly_budget = Some 50, strategy = Some ''fastest'', monthly_payments = None,
            history = Some []\<rparr>) \<and>
   simulate_payoff_total_budget [\<lparr>name = ''A'', balance = 100, apr = 12\<rparr>] [0] 50 ''fastest''
     0 (1 / 1000000) =
     ([\<lparr>name = ''A'', balance = 100, apr = 12\<rparr>, \<lparr>name = ''A'', balance = 100, apr = 12\<rparr>],
      Inr \<lparr>paid_off = False, months = 1, total_interest = 0,
            reason = Some ''Hit max_months (budget may be too low).'', monthly_budget = None,
            strategy = None, monthly_payments = None, history = Some []\<rparr>) \<and>
   simulate_payoff_total_budget [\<lparr>name = ''A'', balance = 100, apr = 12\<rparr>] [0] 50 ''fastest''
     2000 (1 / 1000000) =
     ([\<lparr>name = ''A'', balance = 100, apr = 12\<rparr>, \<lparr>name = ''A'', balance = 101, apr = 12\<rparr>],
      Inl ValueError) \<and>
   simulate_payoff_total_budget [\<lparr>name = ''A'', balance = 100, apr = 12\<rparr>] [0] 0 ''avalanche''
     2000 (1 / 1000000) =
     ([\<lparr>name = ''A'', balance = 100, apr = 12\<rparr>], Inl ValueError)"
  by (simp add: eval_defs)

section \<open>One-time payment: errors and atomicity\<close>

text \<open>
  Claim C7. \<^verbatim>\<open>apply_one_time_payment\<close> raises \<^verbatim>\<open>ValueError\<close> when the amount is negative and
  \<^verbatim>\<open>KeyError\<close> when no card of the list has the name; in both failures the heap, and so
  every balance, is what it was. When it succeeds, the heap changes in one cell only: that
  of the first card of the list with the name, whose balance becomes
  \<open>max 0 (balance - amount)\<close>.
\<close>

theorem one_time_payment_atomic:
  "(amount < 0 \<longrightarrow> apply_one_time_payment h cards nm amount = (h, Inl ValueError)) \<and>
   (find (\<lambda>c. name (h ! c) = nm) cards = None \<longrightarrow>
      apply_one_time_payment h cards nm amount =
        (h, Inl (if amount < 0 then ValueError else KeyError))) \<and>
   (\<not> amount < 0 \<and> find (\<lambda>c. name (h ! c) = nm) cards = Some c \<longrightarrow>
      apply_one_time_payment h cards nm amount =
        (h[c := (h ! c)\<lparr>balance := max 0 (balance (h ! c) - amount)\<rparr>], Inr ()))"
  by (simp add: apply_one_time_payment_def pay_first_match_find)

theorem one_time_payment_atomic_witness:
  "apply_one_time_payment
     [\<lparr>name = ''A'', balance = 100, apr = 20\<rparr>, \<lparr>name = ''B'', balance = 50, apr = 10\<rparr>,
      \<lparr>name = ''B'', balance = 7, apr = 3\<rparr>] [0, 1, 2] ''B'' (- 5) =
     ([\<lparr>name = ''A'', balance = 100, apr = 20\<rparr>, \<lparr>name = ''B'', balance = 50, apr = 10\<rparr>,
       \<lparr>name = ''B'', balance = 7, apr = 3\<rparr>], Inl ValueError) \<and>
   apply_one_time_payment
     [\<lparr>name = ''A'', balance = 100, apr = 20\<rparr>, \<lparr>name = ''B'', balance = 50, apr = 10\<rparr>,
      \<lparr>name = ''B'', balance = 7, apr = 3\<rparr>] [0, 1, 2] ''C'' 5 =
     ([\<lparr>name = ''A'', balance = 100, apr = 20\<rparr>, \<lparr>name = ''B'', balance = 50, apr = 10\<rparr>,
       \<lparr>name = ''B'', balance = 7, apr = 3\<rparr>], Inl KeyError) \<and>
   apply_one_time_payment
     [\<lparr>name = ''A'', balance = 100, apr = 20\<rparr>, \<lparr>name = ''B'', balance = 50, apr = 10\<rparr>,
      \<lparr>name = ''B'', balance = 7, apr = 3\<rparr>] [0, 1, 2] ''B'' 30 =
     ([\<lparr>name = ''A'', balance = 100, apr = 20\<rparr>, \<lparr>name = ''B'', balance = 20, apr = 10\<rparr>,
       \<lparr>name = ''B'', balance = 7, apr = 3\<rparr>], Inr ())"
  using one_time_payment_atomic
          [of "- 5" "[\<lparr>name = ''A'', balance = 100, apr = 20\<rparr>,
                     \<lparr>name = ''B'', balance = 50, apr = 10\<rparr>,
                     \<lparr>name = ''B'', balance = 7, apr = 3\<rparr>]" "[0, 1, 2]" "''B''" 1]
        one_time_payment_atomic
          [of 5 "[\<lparr>name = ''A'', balance = 100, apr = 20\<rparr>,
                  \<lparr>name = ''B'', balance = 50, apr = 10\<rparr>,
                  \<lparr>name = ''B'', balance = 7, apr = 3\<rparr>]" "[0, 1, 2]" "''C''" 0]
        one_time_payment_atomic
          [of 30 "[\<lparr>name = ''A'', balance = 100, apr = 20\<rparr>,
                   \<lparr>name = ''B'', balance = 50, apr = 10\<rparr>,
                   \<lparr>name = ''B'', balance = 7, apr = 3\<rparr>]" "[0, 1, 2]" "''B''" 1]
  by simp

section \<open>A single account, month by month\<close>

text \<open>
  Claim C1. One account with balance 1200 and APR 24, budget 200, the default strategy,
  cap and \<^verbatim>\<open>epsilon\<close>. The working copy is the card at address 1. The monthly rate is
  \<open>1 / 50\<close>; the first accrual adds 24 and leaves 1224; the payment is
  \<open>min 1224 200 = 200\<close> and leaves 1024. The cycle of accrual and payment repeats until
  the balance is 0 after the seventh month, and the call returns \<^verbatim>\<open>paid_off = True\<close>,
  \<^verbatim>\<open>months = 7\<close> and the sum of the seven monthly interests as \<^verbatim>\<open>total_interest\<close>; the
  history lists each month. In general, an accrual pass over distinct cards adds
  \<open>balance * monthly_rate apr\<close> to each balance above \<^verbatim>\<open>epsilon\<close>, leaves every other
  balance as it is, and adds exactly these amounts to the interest total.
\<close>

theorem single_account_trace:
  "monthly_rate 24 = 1 / 50 \<and>
   accrue (1 / 1000000) [1]
       ([\<lparr>name = ''A'', balance = 1200, apr = 24\<rparr>, \<lparr>name = ''A'', balance = 1200, apr = 24\<rparr>], 0) =
     ([\<lparr>name = ''A'', balance = 1200, apr = 24\<rparr>, \<lparr>name = ''A'', balance = 1224, apr = 24\<rparr>], 24) \<and>
   min (1224 :: rat) 200 = 200 \<and>
   allocate 200 ''avalanche'' (1 / 1000000) [1]
       [\<lparr>name = ''A'', balance = 1200, apr = 24\<rparr>, \<lparr>name = ''A'', balance = 1224, apr = 24\<rparr>] =
     ([\<lparr>name = ''A'', balance = 1200, apr = 24\<rparr>, \<lparr>name = ''A'', balance = 1024, apr = 24\<rparr>], Done) \<and>
   simulate_payoff_total_budget [\<lparr>name = ''A'', balance = 1200, apr = 24\<rparr>] [0] 200 ''avalanche''
       2000 (1 / 1000000) =
     ([\<lparr>name = ''A'', balance = 1200, apr = 24\<rparr>, \<lparr>name = ''A'', balance = 0, apr = 24\<rparr>],
      Inr \<lparr>paid_off = True, months = 7, total_interest = 89420043639 / 976562500,
            reason = None, monthly_budget = Some 200, strategy = Some ''avalanche'',
            monthly_payments = None,
            history = Some
              [\<lparr>month = 1, interest = 24, total_interest_to_date = 24,
                balances = [(''A'', 1024)], snapshot_total_balance = 1024\<rparr>,
               \<lparr>month = 2, interest = 512 / 25, total_interest_to_date = 1112 / 25,
                balances = [(''A'', 21112 / 25)], snapshot_total_balance = 21112 / 25\<rparr>,
               \<lparr>month = 3, interest = 10556 / 625, total_interest_to_date = 38356 / 625,
                balances = [(''A'', 413356 / 625)], snapshot_total_balance = 413356 / 625\<rparr>,
               \<lparr>month = 4, interest = 206678 / 15625, total_interest_to_date = 1165578 / 15625,
                balances = [(''A'', 7415578 / 15625)], snapshot_total_balance = 7415578 / 15625\<rparr>,
               \<lparr>month = 5, interest = 3707789 / 390625, total_interest_to_date = 32847239 / 390625,
                balances = [(''A'', 110972239 / 390625)],
                snapshot_total_balance = 110972239 / 390625\<rparr>,
               \<lparr>month = 6, interest = 110972239 / 19531250,
                total_interest_to_date = 1753334189 / 19531250,
                balances = [(''A'', 1753334189 / 19531250)],
                snapshot_total_balance = 1753334189 / 19531250\<rparr>,
               \<lparr>month = 7, interest = 1753334189 / 976562500,
                total_interest_to_date = 89420043639 / 976562500,
                balances = [(''A'', 0)], snapshot_total_balance = 0\<rparr>]\<rparr>) \<and>
   (distinct cs \<and> list_all (\<lambda>c. c < length h) cs \<longrightarrow>
      list_all (\<lambda>c. fst (accrue epsilon cs (h, acc)) ! c =
                    (h ! c)\<lparr>balance := balance (h ! c) +
                      (if epsilon < balance (h ! c)
                       then balance (h ! c) * monthly_rate (apr (h ! c)) else 0)\<rparr>) cs \<and>
      snd (accrue epsilon cs (h, acc)) =
        acc + sum_list (map (\<lambda>c. if epsilon < balance (h ! c)
                                    then balance (h ! c) * monthly_rate (apr (h ! c)) else 0) cs))"
proof (intro conjI impI)
  show "monthly_rate 24 = 1 / 50" by (simp add: monthly_rate_def)
  show "min (1224 :: rat) 200 = 200" by simp
  show "accrue (1 / 1000000) [1]
       ([\<lparr>name = ''A'', balance = 1200, apr = 24\<rparr>, \<lparr>name = ''A'', balance = 1200, apr = 24\<rparr>], 0) =
     ([\<lparr>name = ''A'', balance = 1200, apr = 24\<rparr>, \<lparr>name = ''A'', balance = 1224, apr = 24\<rparr>], 24)"
    by (simp add: eval_defs)
  show "allocate 200 ''avalanche'' (1 / 1000000) [1]
       [\<lparr>name = ''A'', balance = 1200, apr = 24\<rparr>, \<lparr>name = ''A'', balance = 1224, apr = 24\<rparr>] =
     ([\<lparr>name = ''A'', balance = 1200, apr = 24\<rparr>, \<lparr>name = ''A'', balance = 1024, apr = 24\<rparr>], Done)"
    by (simp add: eval_defs)
  show "simulate_payoff_total_budget [\<lparr>name = ''A'', balance = 1200, apr = 24\<rparr>] [0] 200 ''avalanche''
       2000 (1 / 1000000) =
     ([\<lparr>name = ''A'', balance = 1200, apr = 24\<rparr>, \<lparr>name = ''A'', balance = 0, apr = 24\<rparr>],
      Inr \<lparr>paid_off = True, months = 7, total_interest = 89420043639 / 976562500,
            reason = None, monthly_budget = Some 200, strategy = Some ''avalanche'',
            monthly_payments = None,
            history = Some
              [\<lparr>month = 1, interest = 24, total_interest_to_date = 24,
                balances = [(''A'', 1024)], snapshot_total_balance = 1024\<rparr>,
               \<lparr>month = 2, interest = 512 / 25, total_interest_to_date = 1112 / 25,
                balances = [(''A'', 21112 / 25)], snapshot_total_balance = 21112 / 25\<rparr>,
               \<lparr>month = 3, interest = 10556 / 625, total_interest_to_date = 38356 / 625,
                balances = [(''A'', 413356 / 625)], snapshot_total_balance = 413356 / 625\<rparr>,
               \<lparr>month = 4, interest = 206678 / 15625, total_interest_to_date = 1165578 / 15625,
                balances = [(''A'', 7415578 / 15625)], snapshot_total_balance = 7415578 / 15625\<rparr>,
               \<lparr>month = 5, interest = 3707789 / 390625, total_interest_to_date = 32847239 / 390625,
                balances = [(''A'', 110972239 / 390625)],
                snapshot_total_balance = 110972239 / 390625\<rparr>,
               \<lparr>month = 6, interest = 110972239 / 19531250,
                total_interest_to_date = 1753334189 / 19531250,
                balances = [(''A'', 1753334189 / 19531250)],
                snapshot_total_balance = 1753334189 / 19531250\<rparr>,
               \<lparr>month = 7, interest = 1753334189 / 976562500,
                total_interest_to_date = 89420043639 / 976562500,
                balances = [(''A'', 0)], snapshot_total_balance = 0\<rparr>]\<rparr>)"
    by (simp add: eval_defs)
next
  assume a: "distinct cs \<and> list_all (\<lambda>c. c < length h) cs"
  then have d: "distinct cs" and l: "\<forall>c \<in> set cs. c < length h" by (simp_all add: list_all_iff)
  note r = accrue_distinct [OF d l, of epsilon acc, unfolded accrued_def]
  show "list_all (\<lambda>c. fst (accrue epsilon cs (h, acc)) ! c =
                    (h ! c)\<lparr>balance := balance (h ! c) +
                      (if epsilon < balance (h ! c)
                       then balance (h ! c) * monthly_rate (apr (h ! c)) else 0)\<rparr>) cs"
    using r by (simp add: list_all_iff)
  show "snd (accrue epsilon cs (h, acc)) =
        acc + sum_list (map (\<lambda>c. if epsilon < balance (h ! c)
                                    then balance (h ! c) * monthly_rate (apr (h ! c)) else 0) cs)"
    using r by simp
qed

theorem single_account_trace_witness:
  "fst (accrue (1 / 1000000) [1]
          ([\<lparr>name = ''A'', balance = 1200, apr = 24\<rparr>, \<lparr>name = ''A'', balance = 1200, apr = 24\<rparr>],
           0)) ! 1 = \<lparr>name = ''A'', balance = 1200 + 1200 * (1 / 50), apr = 24\<rparr> \<and>
   snd (accrue (1 / 1000000) [1]
          ([\<lparr>name = ''A'', balance = 1200, apr = 24\<rparr>, \<lparr>name = ''A'', balance = 1200, apr = 24\<rparr>],
           0)) = 0 + 1200 * (1 / 50)"
  using single_account_trace
          [of "[1]" "[\<lparr>name = ''A'', balance = 1200, apr = 24\<rparr>,
                      \<lparr>name = ''A'', balance = 1200, apr = 24\<rparr>]" "1 / 1000000" 0]
  by (simp add: monthly_rate_def)

section \<open>The proportional pass pays each card its share\<close>




section \<open>Which card is paid first\<close>

text \<open>
  Claim C6. Take two different cards, both active, in either order in the list, a budget
  above \<^verbatim>\<open>epsilon\<close> and an \<^verbatim>\<open>epsilon\<close> of at least 0. Avalanche walks the card with the
  higher APR first, snowball the card with the lower balance first; the card walked first
  gets \<open>min balance budget\<close>, the other card gets what is left of the budget, nothing
  once that is at most \<^verbatim>\<open>epsilon\<close>. Two cards with equal balances above \<^verbatim>\<open>epsilon\<close> and
  different APRs come out of the accrual with the higher APR on the higher balance, so for
  them avalanche starts with the higher APR and snowball with the lower one, month after
  month while both are active. For A (1000 at 20) and B (500 at 10) with budget 100, whose
  copies are the cards 2 and 3: the accrual gives \<open>3050 / 3\<close> and \<open>3025 / 6\<close>; avalanche
  pays A 100 and B 0, snowball pays B 100 and A 0, and the first snapshot of each
  simulation shows these balances.
\<close>

theorem strategy_order:
  "(a \<noteq> b \<and> a < length h \<and> b < length h \<and> (cards = [a, b] \<or> cards = [b, a]) \<and>
    0 \<le> epsilon \<and> epsilon < budget \<and> epsilon < balance (h ! a) \<and> epsilon < balance (h ! b) \<longrightarrow>
      (apr (h ! b) < apr (h ! a) \<longrightarrow>
         allocate budget ''avalanche'' epsilon cards h =
           (fst (pay_in_order epsilon [a, b] (h, budget)), Done)) \<and>
      (balance (h ! b) < balance (h ! a) \<longrightarrow>
         allocate budget ''snowball'' epsilon cards h =
           (fst (pay_in_order epsilon [b, a] (h, budget)), Done)) \<and>
      balance (fst (pay_in_order epsilon [a, b] (h, budget)) ! a) =
        balance (h ! a) - min (balance (h ! a)) budget \<and>
      balance (fst (pay_in_order epsilon [a, b] (h, budget)) ! b) =
        balance (h ! b) -
          (if budget - min (balance (h ! a)) budget \<le> epsilon then 0
           else min (balance (h ! b)) (budget - min (balance (h ! a)) budget))) \<and>
   (a \<noteq> b \<and> a < length h \<and> b < length h \<and> (cards = [a, b] \<or> cards = [b, a]) \<and>
    0 \<le> epsilon \<and> epsilon < balance (h ! a) \<and> balance (h ! a) = balance (h ! b) \<and>
    0 \<le> apr (h ! b) \<and> apr (h ! b) < apr (h ! a) \<longrightarrow>
      apr (fst (accrue epsilon cards (h, acc)) ! b) < apr (fst (accrue epsilon cards (h, acc)) ! a) \<and>
      balance (fst (accrue epsilon cards (h, acc)) ! b) <
        balance (fst (accrue epsilon cards (h, acc)) ! a) \<and>
      epsilon < balance (fst (accrue epsilon cards (h, acc)) ! b)) \<and>
   accrue (1 / 1000000) [2, 3]
       ([\<lparr>name = ''A'', balance = 1000, apr = 20\<rparr>, \<lparr>name = ''B'', balance = 500, apr = 10\<rparr>,
         \<lparr>name = ''A'', balance = 1000, apr = 20\<rparr>, \<lparr>name = ''B'', balance = 500, apr = 10\<rparr>], 0) =
     ([\<lparr>name = ''A'', balance = 1000, apr = 20\<rparr>, \<lparr>name = ''B'', balance = 500, apr = 10\<rparr>,
       \<lparr>name = ''A'', balance = 3050 / 3, apr = 20\<rparr>, \<lparr>name = ''B'', balance = 3025 / 6, apr = 10\<rparr>],
      125 / 6) \<and>
   allocate 100 ''avalanche'' (1 / 1000000) [2, 3]
       [\<lparr>name = ''A'', balance = 1000, apr = 20\<rparr>, \<lparr>name = ''B'', balance = 500, apr = 10\<rparr>,
        \<lparr>name = ''A'', balance = 3050 / 3, apr = 20\<rparr>, \<lparr>name = ''B'', balance = 3025 / 6, apr = 10\<rparr>] =
     ([\<lparr>name = ''A'', balance = 1000, apr = 20\<rparr>, \<lparr>name = ''B'', balance = 500, apr = 10\<rparr>,
       \<lparr>name = ''A'', balance = 3050 / 3 - 100, apr = 20\<rparr>,
       \<lparr>name = ''B'', balance = 3025 / 6 - 0, apr = 10\<rparr>], Done) \<and>
   allocate 100 ''snowball'' (1 / 1000000) [2, 3]
       [\<lparr>name = ''A'', balance = 1000, apr = 20\<rparr>, \<lparr>name = ''B'', balance = 500, apr = 10\<rparr>,
        \<lparr>name = ''A'', balance = 3050 / 3, apr = 20\<rparr>, \<lparr>name = ''B'', balance = 3025 / 6, apr = 10\<rparr>] =
     ([\<lparr>name = ''A'', balance = 1000, apr = 20\<rparr>, \<lparr>name = ''B'', balance = 500, apr = 10\<rparr>,
       \<lparr>name = ''A'', balance = 3050 / 3 - 0, apr = 20\<rparr>,
       \<lparr>name = ''B'', balance = 3025 / 6 - 100, apr = 10\<rparr>], Done) \<and>
   simulate_payoff_total_budget
       [\<lparr>name = ''A'', balance = 1000, apr = 20\<rparr>, \<lparr>name = ''B'', balance = 500, apr = 10\<rparr>]
       [0, 1] 100 ''avalanche'' 1 (1 / 1000000) =
     ([\<lparr>name = ''A'', balance = 1000, apr = 20\<rparr>, \<lparr>name = ''B'', balance = 500, apr = 10\<rparr>,
       \<lparr>name = ''A'', balance = 2750 / 3, apr = 20\<rparr>, \<lparr>name = ''B'', balance = 3025 / 6, apr = 10\<rparr>],
      Inr (cap_result 2 (125 / 6) ''Hit max_months (budget may be too low).''
             (Some [\<lparr>month = 1, interest = 125 / 6, total_interest_to_date = 125 / 6,
                     balances = [(''A'', 2750 / 3), (''B'', 3025 / 6)],
                     snapshot_total_balance = 8525 / 6\<rparr>]))) \<and>
   simulate_payoff_total_budget
       [\<lparr>name = ''A'', balance = 1000, apr = 20\<rparr>, \<lparr>name = ''B'', balance = 500, apr = 10\<rparr>]
       [0, 1] 100 ''snowball'' 1 (1 / 1000000) =
     ([\<lparr>name = ''A'', balance = 1000, apr = 20\<rparr>, \<lparr>name = ''B'', balance = 500, apr = 10\<rparr>,
       \<lparr>name = ''A'', balance = 3050 / 3, apr = 20\<rparr>, \<lparr>name = ''B'', balance = 2425 / 6, apr = 10\<rparr>],
      Inr (cap_result 2 (125 / 6) ''Hit max_months (budget may be too low).''
             (Some [\<lparr>month = 1, interest = 125 / 6, total_interest_to_date = 125 / 6,
                     balances = [(''A'', 3050 / 3), (''B'', 2425 / 6)],
                     snapshot_total_balance = 8525 / 6\<rparr>])))"
proof (intro conjI)
  show "a \<noteq> b \<and> a < length h \<and> b < length h \<and> (cards = [a, b] \<or> cards = [b, a]) \<and>
    0 \<le> epsilon \<and> epsilon < budget \<and> epsilon < balance (h ! a) \<and> epsilon < balance (h ! b) \<longrightarrow>
      (apr (h ! b) < apr (h ! a) \<longrightarrow>
         allocate budget ''avalanche'' epsilon cards h =
           (fst (pay_in_order epsilon [a, b] (h, budget)), Done)) \<and>
      (balance (h ! b) < balance (h ! a) \<longrightarrow>
         allocate budget ''snowball'' epsilon cards h =
           (fst (pay_in_order epsilon [b, a] (h, budget)), Done)) \<and>
      balance (fst (pay_in_order epsilon [a, b] (h, budget)) ! a) =
        balance (h ! a) - min (balance (h ! a)) budget \<and>
      balance (fst (pay_in_order epsilon [a, b] (h, budget)) ! b) =
        balance (h ! b) -
          (if budget - min (balance (h ! a)) budget \<le> epsilon then 0
           else min (balance (h ! b)) (budget - min (balance (h ! a)) budget))"
  proof (intro impI conjI)
    assume p: "a \<noteq> b \<and> a < length h \<and> b < length h \<and> (cards = [a, b] \<or> cards = [b, a]) \<and>
      0 \<le> epsilon \<and> epsilon < budget \<and> epsilon < balance (h ! a) \<and> epsilon < balance (h ! b)"
    then have ab: "a \<noteq> b" and wa: "a < length h" and wb: "b < length h"
      and cards: "cards = [a, b] \<or> cards = [b, a]" and e0: "0 \<le> epsilon" and eb: "epsilon < budget"
      and aa: "epsilon < balance (h ! a)" and ba: "epsilon < balance (h ! b)"
      by simp_all
    show "allocate budget ''avalanche'' epsilon cards h =
           (fst (pay_in_order epsilon [a, b] (h, budget)), Done)" if "apr (h ! b) < apr (h ! a)"
      using allocate_two(1) [OF ab wa wb cards e0 eb aa ba that] .
    show "allocate budget ''snowball'' epsilon cards h =
           (fst (pay_in_order epsilon [b, a] (h, budget)), Done)" if "balance (h ! b) < balance (h ! a)"
      using allocate_two(2) [OF ab wa wb cards e0 eb aa ba that] .
    show "balance (fst (pay_in_order epsilon [a, b] (h, budget)) ! a) =
        balance (h ! a) - min (balance (h ! a)) budget"
      using ab wa wb by (subst walk_two [OF ab eb]) (simp add: nth_set_balance)
    show "balance (fst (pay_in_order epsilon [a, b] (h, budget)) ! b) =
        balance (h ! b) -
          (if budget - min (balance (h ! a)) budget \<le> epsilon then 0
           else min (balance (h ! b)) (budget - min (balance (h ! a)) budget))"
      using ab wa wb by (subst walk_two [OF ab eb]) (simp add: nth_set_balance)
  qed
  show "a \<noteq> b \<and> a < length h \<and> b < length h \<and> (cards = [a, b] \<or> cards = [b, a]) \<and>
    0 \<le> epsilon \<and> epsilon < balance (h ! a) \<and> balance (h ! a) = balance (h ! b) \<and>
    0 \<le> apr (h ! b) \<and> apr (h ! b) < apr (h ! a) \<longrightarrow>
      apr (fst (accrue epsilon cards (h, acc)) ! b) < apr (fst (accrue epsilon cards (h, acc)) ! a) \<and>
      balance (fst (accrue epsilon cards (h, acc)) ! b) <
        balance (fst (accrue epsilon cards (h, acc)) ! a) \<and>
      epsilon < balance (fst (accrue epsilon cards (h, acc)) ! b)"
    using accrue_equal_balances [of a b h cards epsilon acc] by blast
qed (simp_all add: eval_defs)

theorem strategy_order_witness:
  "allocate 100 ''avalanche'' (1 / 1000000) [2, 3]
       [\<lparr>name = ''A'', balance = 1000, apr = 20\<rparr>, \<lparr>name = ''B'', balance = 500, apr = 10\<rparr>,
        \<lparr>name = ''A'', balance = 3050 / 3, apr = 20\<rparr>, \<lparr>name = ''B'', balance = 3025 / 6, apr = 10\<rparr>] =
     (fst (pay_in_order (1 / 1000000) [2, 3]
        ([\<lparr>name = ''A'', balance = 1000, apr = 20\<rparr>, \<lparr>name = ''B'', balance = 500, apr = 10\<rparr>,
          \<lparr>name = ''A'', balance = 3050 / 3, apr = 20\<rparr>, \<lparr>name = ''B'', balance = 3025 / 6, apr = 10\<rparr>],
         100)), Done) \<and>
   allocate 100 ''snowball'' (1 / 1000000) [2, 3]
       [\<lparr>name = ''A'', balance = 1000, apr = 20\<rparr>, \<lparr>name = ''B'', balance = 500, apr = 10\<rparr>,
        \<lparr>name = ''A'', balance = 3050 / 3, apr = 20\<rparr>, \<lparr>name = ''B'', balance = 3025 / 6, apr = 10\<rparr>] =
     (fst (pay_in_order (1 / 1000000) [3, 2]
        ([\<lparr>name = ''A'', balance = 1000, apr = 20\<rparr>, \<lparr>name = ''B'', balance = 500, apr = 10\<rparr>,
          \<lparr>name = ''A'', balance = 3050 / 3, apr = 20\<rparr>, \<lparr>name = ''B'', balance = 3025 / 6, apr = 10\<rparr>],
         100)), Done) \<and>
   balance (fst (accrue (1 / 1000000) [0, 1]
        ([\<lparr>name = ''A'', balance = 1000, apr = 20\<rparr>, \<lparr>name = ''B'', balance = 1000, apr = 10\<rparr>], 0)) ! 1) <
     balance (fst (accrue (1 / 1000000) [0, 1]
        ([\<lparr>name = ''A'', balance = 1000, apr = 20\<rparr>, \<lparr>name = ''B'', balance = 1000, apr = 10\<rparr>], 0)) ! 0)"
  using strategy_order
          [where a = 2 and b = 3 and cards = "[2, 3]" and epsilon = "1 / 1000000" and budget = 100
             and h = "[\<lparr>name = ''A'', balance = 1000, apr = 20\<rparr>, \<lparr>name = ''B'', balance = 500, apr = 10\<rparr>,
                       \<lparr>name = ''A'', balance = 3050 / 3, apr = 20\<rparr>,
                       \<lparr>name = ''B'', balance = 3025 / 6, apr = 10\<rparr>]" and acc = 0]
        strategy_order
          [where a = 0 and b = 1 and cards = "[0, 1]" and epsilon = "1 / 1000000" and budget = 100
             and h = "[\<lparr>name = ''A'', balance = 1000, apr = 20\<rparr>, \<lparr>name = ''B'', balance = 1000, apr = 10\<rparr>]"
             and acc = 0]
  by simp

section \<open>Balances never go negative\<close>

text \<open>
  Claim C8. Let no card of the list have a negative balance or a negative APR. Then this
  still holds after an accrual pass over any of the cards, after a payment walk or a
  proportional pass over any of them (so after every single accrual and every single
  payment, a pass over a prefix being a pass), after the whole allocation step, after the
  payments of a manual month, after a one-time payment, and when either loop is left,
  whether it returns or raises. For a call of a simulation it holds of the caller's cards
  and of the working copies when the call is over, and every snapshot of the returned
  history has a total balance and balances of at least 0. A one-time payment of at least
  the balance leaves that balance at exactly 0.
\<close>

theorem balances_never_negative:
  "(nonneg h cards \<and> set cs \<subseteq> set cards \<longrightarrow>
      nonneg (fst (accrue epsilon cs (h, acc))) cards \<and>
      nonneg (fst (pay_in_order epsilon cs (h, remaining))) cards \<and>
      nonneg (fst (pay_shares remaining total_bal cs h)) cards \<and>
      nonneg (fst (allocate budget strat epsilon cards h)) cards \<and>
      nonneg (fst (apply_one_time_payment h cards nm amount)) cards \<and>
      nonneg (fst (budget_loop cards budget strat max_months epsilon h n t hist)) cards \<and>
      (ran d \<subseteq> set cards \<longrightarrow>
         nonneg (fst (pay_manual epsilon d payments h)) cards \<and>
         nonneg (fst (manual_loop cards payments d max_months epsilon h n t hist)) cards)) \<and>
   (nonneg h cards \<and> list_all (\<lambda>c. c < length h) cards \<longrightarrow>
      nonneg (fst (simulate_payoff_total_budget h cards budget strat max_months epsilon)) cards \<and>
      (0 < budget \<longrightarrow>
         nonneg (fst (simulate_payoff_total_budget h cards budget strat max_months epsilon))
           (snd (deepcopy h cards))) \<and>
      history_nonneg (snd (simulate_payoff_total_budget h cards budget strat max_months epsilon)) \<and>
      nonneg (fst (simulate_payoff_manual_payments h cards payments max_months epsilon)) cards \<and>
      nonneg (fst (simulate_payoff_manual_payments h cards payments max_months epsilon))
        (snd (deepcopy h cards)) \<and>
      history_nonneg (snd (simulate_payoff_manual_payments h cards payments max_months epsilon))) \<and>
   (\<not> amount < 0 \<and> find (\<lambda>c. name (h ! c) = nm) cards = Some c \<and> c < length h \<and>
    balance (h ! c) \<le> amount \<longrightarrow>
      balance (fst (apply_one_time_payment h cards nm amount) ! c) = 0)"
proof (intro conjI impI)
  assume a: "nonneg h cards \<and> set cs \<subseteq> set cards"
  then have n: "nonneg h cards" and s: "set cs \<subseteq> set cards" by simp_all
  show "nonneg (fst (accrue epsilon cs (h, acc))) cards" by (rule accrue_nonneg [OF s n])
  show "nonneg (fst (pay_in_order epsilon cs (h, remaining))) cards"
    by (rule pay_in_order_nonneg [OF s n])
  show "nonneg (fst (pay_shares remaining total_bal cs h)) cards" by (rule pay_shares_nonneg [OF s n])
  show "nonneg (fst (allocate budget strat epsilon cards h)) cards" by (rule allocate_nonneg [OF n])
  show "nonneg (fst (apply_one_time_payment h cards nm amount)) cards"
    by (rule one_time_payment_nonneg [OF n])
  show "nonneg (fst (budget_loop cards budget strat max_months epsilon h n t hist)) cards"
    by (rule budget_loop_nonneg [OF n])
  assume d: "ran d \<subseteq> set cards"
  show "nonneg (fst (pay_manual epsilon d payments h)) cards" by (rule pay_manual_nonneg [OF d n])
  show "nonneg (fst (manual_loop cards payments d max_months epsilon h n t hist)) cards"
    by (rule manual_loop_nonneg [OF d n])
next
  assume a: "nonneg h cards \<and> list_all (\<lambda>c. c < length h) cards"
  then have n: "nonneg h cards" and wf: "list_all (\<lambda>c. c < length h) cards" by simp_all
  obtain h0 cards' where d: "deepcopy h cards = (h0, cards')" by (cases "deepcopy h cards")
  have n0: "nonneg h0 cards'" using deepcopy_nonneg [OF wf d] n by simp
  have nil: "list_all snapshot_nonneg []" by simp
  have same: "take (length h) h' = h \<Longrightarrow> nonneg h' cards" for h'
  proof -
    assume t: "take (length h) h' = h"
    have "h' ! c = h ! c" if "c \<in> set cards" for c
      using that wf nth_take [of c "length h" h'] t by (simp add: list_all_iff)
    then show "nonneg h' cards" using n by (simp add: nonneg_def list_all_iff)
  qed
  show "nonneg (fst (simulate_payoff_total_budget h cards budget strat max_months epsilon)) cards"
    by (rule same) (rule simulate_payoff_total_budget_frame)
  show "nonneg (fst (simulate_payoff_manual_payments h cards payments max_months epsilon)) cards"
    by (rule same) (rule simulate_payoff_manual_payments_frame)
  obtain h1 n1 out where l: "budget_loop cards' budget strat max_months epsilon h0 0 0 [] = (h1, n1, out)"
    by (cases "budget_loop cards' budget strat max_months epsilon h0 0 0 []")
  have "nonneg h1 cards'" using budget_loop_nonneg [OF n0] l by (metis fst_conv)
  moreover have "history_nonneg out"
    using budget_loop_history [OF n0 nil] l by (metis snd_conv)
  ultimately show "history_nonneg (snd (simulate_payoff_total_budget h cards budget strat max_months epsilon))"
    and "0 < budget \<Longrightarrow> nonneg (fst (simulate_payoff_total_budget h cards budget strat max_months epsilon))
           (snd (deepcopy h cards))"
    by (simp_all add: simulate_payoff_total_budget_def d l history_nonneg_def)
  have r: "ran (name_to_card h0 cards') \<subseteq> set cards'" by (rule ran_name_to_card)
  obtain h2 n2 out2 where m: "manual_loop cards' payments (name_to_card h0 cards') max_months epsilon
      h0 0 0 [] = (h2, n2, out2)"
    by (cases "manual_loop cards' payments (name_to_card h0 cards') max_months epsilon h0 0 0 []")
  have "nonneg h2 cards'" using manual_loop_nonneg [OF r n0] m by (metis fst_conv)
  moreover have "history_nonneg out2"
    using manual_loop_history [OF r n0 nil] m by (metis snd_conv)
  ultimately show "history_nonneg (snd (simulate_payoff_manual_payments h cards payments max_months epsilon))"
    and "nonneg (fst (simulate_payoff_manual_payments h cards payments max_months epsilon))
        (snd (deepcopy h cards))"
    using n0 by (simp_all add: simulate_payoff_manual_payments_def d m history_nonneg_def)
next
  assume "\<not> amount < 0 \<and> find (\<lambda>c. name (h ! c) = nm) cards = Some c \<and> c < length h \<and>
    balance (h ! c) \<le> amount"
  then show "balance (fst (apply_one_time_payment h cards nm amount) ! c) = 0"
    by (simp add: apply_one_time_payment_def pay_first_match_find)
qed

theorem balances_never_negative_witness:
  "nonneg (fst (accrue (1 / 1000000) [0, 1]
                  ([\<lparr>name = ''A'', balance = 100, apr = 12\<rparr>, \<lparr>name = ''B'', balance = 50, apr = 0\<rparr>], 0)))
     [0, 1] \<and>
   nonneg (fst (allocate 120 ''snowball'' (1 / 1000000) [0, 1]
                  [\<lparr>name = ''A'', balance = 100, apr = 12\<rparr>, \<lparr>name = ''B'', balance = 50, apr = 0\<rparr>]))
     [0, 1] \<and>
   nonneg (fst (pay_manual (1 / 1000000) [''A'' \<mapsto> 0] [(''A'', 500)]
                  [\<lparr>name = ''A'', balance = 100, apr = 12\<rparr>, \<lparr>name = ''B'', balance = 50, apr = 0\<rparr>]))
     [0, 1] \<and>
   nonneg (fst (simulate_payoff_total_budget
                  [\<lparr>name = ''A'', balance = 100, apr = 12\<rparr>, \<lparr>name = ''B'', balance = 50, apr = 0\<rparr>]
                  [0, 1] 120 ''snowball'' 2000 (1 / 1000000)))
     (snd (deepcopy
             [\<lparr>name = ''A'', balance = 100, apr = 12\<rparr>, \<lparr>name = ''B'', balance = 50, apr = 0\<rparr>]
             [0, 1])) \<and>
   history_nonneg (snd (simulate_payoff_total_budget
                  [\<lparr>name = ''A'', balance = 100, apr = 12\<rparr>, \<lparr>name = ''B'', balance = 50, apr = 0\<rparr>]
                  [0, 1] 120 ''snowball'' 2000 (1 / 1000000))) \<and>
   balance (fst (apply_one_time_payment
                   [\<lparr>name = ''A'', balance = 100, apr = 12\<rparr>, \<lparr>name = ''B'', balance = 50, apr = 0\<rparr>]
                   [0, 1] ''A'' 150) ! 0) = 0"
  using balances_never_negative
          [where h = "[\<lparr>name = ''A'', balance = 100, apr = 12\<rparr>, \<lparr>name = ''B'', balance = 50, apr = 0\<rparr>]"
             and cards = "[0, 1]" and cs = "[0, 1]" and epsilon = "1 / 1000000" and acc = 0
             and budget = 120 and strat = "''snowball''" and d = "[''A'' \<mapsto> 0]"
             and payments = "[(''A'', 500)]" and max_months = 2000 and nm = "''A''"
             and amount = 150 and c = 0]
  by (simp add: nonneg_def)

section \<open>The two implementations of the budget-based simulation\<close>




section \<open>The break of the proportional branch\<close>

text \<open>
  Claim C10. Take any card list in which no balance is above \<^verbatim>\<open>epsilon\<close> while the
  balances sum to more than \<^verbatim>\<open>epsilon\<close>, a positive budget, an \<^verbatim>\<open>epsilon\<close> that is not
  negative and a cap of at least one month (the defaults are \<^verbatim>\<open>1e-6\<close> and 2000). Then the
  proportional strategy enters the first month, accrues nothing, finds no active card,
  breaks out of the loop and returns \<^verbatim>\<open>paid_off = True\<close> with \<^verbatim>\<open>months = 1\<close>, in both
  implementations, while the total balance of the working copy is still above
  \<^verbatim>\<open>epsilon\<close>.
\<close>

theorem proportional_break_reports_paid_off:
  "0 < budget \<and> 0 \<le> epsilon \<and> 1 \<le> max_months \<and> list_all (\<lambda>c. c < length h) cards \<and>
   list_all (\<lambda>c. balance (h ! c) \<le> epsilon) cards \<and> epsilon < total_balance h cards \<longrightarrow>
     simulate_payoff_total_budget h cards budget ''proportional'' max_months epsilon =
       (fst (deepcopy h cards),
        Inr \<lparr>paid_off = True, months = 1, total_interest = 0, reason = None,
              monthly_budget = Some budget, strategy = Some ''proportional'',
              monthly_payments = None, history = Some []\<rparr>) \<and>
     simulate_payoff_total_budget_app h cards budget ''proportional'' max_months epsilon =
       (fst (deepcopy h cards),
        Inr \<lparr>paid_off = True, months = 1, total_interest = 0, reason = None,
              monthly_budget = None, strategy = None, monthly_payments = None, history = None\<rparr>) \<and>
     epsilon < total_balance (fst (deepcopy h cards)) (snd (deepcopy h cards))"
proof
  assume a: "0 < budget \<and> 0 \<le> epsilon \<and> 1 \<le> max_months \<and> list_all (\<lambda>c. c < length h) cards \<and>
   list_all (\<lambda>c. balance (h ! c) \<le> epsilon) cards \<and> epsilon < total_balance h cards"
  obtain h0 cards' where d: "deepcopy h cards = (h0, cards')" by (cases "deepcopy h cards")
  have tb: "epsilon < total_balance h0 cards'"
    using deepcopy_total_balance [OF _ d] a by simp
  have small: "\<forall>c \<in> set cards'. balance (h0 ! c) \<le> epsilon"
    using deepcopy_list_all [OF _ d, of "\<lambda>c. balance c \<le> epsilon"] a by (simp add: list_all_iff)
  have ac: "accrue epsilon cards' (h0, t) = (h0, t)" for t
    by (rule accrue_inactive [OF small])
  have al: "allocate budget ''proportional'' epsilon cards' h0 = (h0, Broke)"
    using a by (simp add: allocate_proportional active_cards_none [OF small])
  have 1: "budget_loop cards' budget ''proportional'' max_months epsilon h0 0 0 [] =
      (h0, 1, Inr (budget_result 1 0 budget ''proportional'' []))"
    using a tb by (simp add: budget_loop.simps [of cards' budget _ max_months epsilon h0] ac al)
  have 2: "budget_loop_app cards' budget ''proportional'' max_months epsilon h0 0 0 =
      (h0, 1, Inr (app_result 1 0))"
    using a tb
    by (simp add: budget_loop_app.simps [of cards' budget _ max_months epsilon h0] ac al
          allocate_app_proportional)
  show "simulate_payoff_total_budget h cards budget ''proportional'' max_months epsilon =
       (fst (deepcopy h cards),
        Inr \<lparr>paid_off = True, months = 1, total_interest = 0, reason = None,
              monthly_budget = Some budget, strategy = Some ''proportional'',
              monthly_payments = None, history = Some []\<rparr>) \<and>
     simulate_payoff_total_budget_app h cards budget ''proportional'' max_months epsilon =
       (fst (deepcopy h cards),
        Inr \<lparr>paid_off = True, months = 1, total_interest = 0, reason = None,
              monthly_budget = None, strategy = None, monthly_payments = None, history = None\<rparr>) \<and>
     epsilon < total_balance (fst (deepcopy h cards)) (snd (deepcopy h cards))"
    using a tb
    by (simp add: simulate_payoff_total_budget_def simulate_payoff_total_budget_app_def d 1 2
          budget_result_def app_result_def)
qed

theorem proportional_break_reports_paid_off_witness:
  "simulate_payoff_total_budget
       [\<lparr>name = ''A'', balance = 3 / 5000000, apr = 12\<rparr>,
        \<lparr>name = ''B'', balance = 3 / 5000000, apr = 24\<rparr>] [0, 1] 100 ''proportional'' 2000
       (1 / 1000000) =
     ([\<lparr>name = ''A'', balance = 3 / 5000000, apr = 12\<rparr>,
       \<lparr>name = ''B'', balance = 3 / 5000000, apr = 24\<rparr>,
       \<lparr>name = ''A'', balance = 3 / 5000000, apr = 12\<rparr>,
       \<lparr>name = ''B'', balance = 3 / 5000000, apr = 24\<rparr>],
      Inr \<lparr>paid_off = True, months = 1, total_interest = 0, reason = None,
            monthly_budget = Some 100, strategy = Some ''proportional'',
            monthly_payments = None, history = Some []\<rparr>) \<and>
   1 / 1000000 <
     total_balance
       [\<lparr>name = ''A'', balance = 3 / 5000000, apr = 12\<rparr>,
        \<lparr>name = ''B'', balance = 3 / 5000000, apr = 24\<rparr>,
        \<lparr>name = ''A'', balance = 3 / 5000000, apr = 12\<rparr>,
        \<lparr>name = ''B'', balance = 3 / 5000000, apr = 24\<rparr>] [2, 3]"
  using proportional_break_reports_paid_off
          [of 100 "1 / 1000000" 2000
              "[\<lparr>name = ''A'', balance = 3 / 5000000, apr = 12\<rparr>,
                \<lparr>name = ''B'', balance = 3 / 5000000, apr = 24\<rparr>]" "[0, 1]"]
  by (simp add: deepcopy_def total_balance_def)

end
